theory Spec2Isabelle
  imports Main "HOL-Library.AList"
begin

section \<open>JavaScript containers\<close>

text \<open>
  A JavaScript \<^verbatim>\<open>Set\<close> iterates in insertion order and holds every element once: it is
  modelled as a list, \<^verbatim>\<open>add\<close> appending an element that is not yet there and
  \<^verbatim>\<open>delete\<close> removing it. A \<^verbatim>\<open>Map\<close> is an association list read with \<open>map_of\<close>,
  written with \<open>AList.update\<close> (in place for a key that is there, at the end for a new
  one) and \<open>AList.delete\<close>.
\<close>

definition set_add :: "'a \<Rightarrow> 'a list \<Rightarrow> 'a list" where
  "set_add x xs = (if x \<in> set xs then xs else xs @ [x])"

definition set_delete :: "'a \<Rightarrow> 'a list \<Rightarrow> 'a list" where
  "set_delete x xs = removeAll x xs"

section \<open>Server: WebSocketManager (examples/servers/nodejs-express/src/services/websocket.ts)\<close>

type_synonym client_id = string
type_synonym resource_id = string
type_synonym payload = string

datatype ready_state = CONNECTING | OPEN | CLOSING | CLOSED

text \<open>
  The \<^verbatim>\<open>ws\<close> socket of a connection, as far as the manager reads it: its
  \<^verbatim>\<open>readyState\<close>, and whether a call of \<^verbatim>\<open>ws.send\<close> throws.
\<close>

record socket =
  readyState :: ready_state
  sendThrows :: bool

datatype change_type = Created | Updated | Deleted | DataUpdated

record metadata_update =
  u_resourceId :: resource_id
  u_changeType :: change_type
  u_timestamp :: nat
  u_metadata :: "payload option"

text \<open>Messages the server writes; the timestamp is the clock reading of the handler.\<close>

datatype ws_message =
    ConnectedMsg client_id nat
  | PongMsg
  | SubscribedMsg resource_id nat
  | UnsubscribedMsg resource_id nat
  | ErrorMsg string
  | UpdateMsg metadata_update

text \<open>
  What arrives on a socket: data on which \<^verbatim>\<open>JSON.parse\<close> (or the read of
  \<^verbatim>\<open>message.type\<close>) throws, or an object with its \<^verbatim>\<open>type\<close> (\<open>None\<close> when the
  property is missing) and its \<^verbatim>\<open>resourceId\<close>.
\<close>

datatype raw_data = Malformed | Json "string option" resource_id

text \<open>The calls made on a socket, in the order they are made (a ghost log).\<close>

datatype sock_call = Send ws_message | Ping | Terminate | CloseWith nat

record client_connection =
  c_id :: client_id
  c_ws :: socket
  c_subscriptions :: "resource_id list"
  lastSeen :: nat

record manager =
  clients :: "(client_id \<times> client_connection) list"
  m_subscriptions :: "(resource_id \<times> client_id list) list"
  wire :: "(client_id \<times> sock_call) list"

record ws_config =
  heartbeatInterval :: nat
  maxConnections :: nat

definition manager_init :: manager where
  "manager_init = \<lparr>clients = [], m_subscriptions = [], wire = []\<rparr>"

text \<open>The body of the clean-up loop of \<^verbatim>\<open>handleDisconnection\<close>, for one resourceId.\<close>

definition unindex :: "client_id \<Rightarrow> resource_id \<Rightarrow> (resource_id \<times> client_id list) list
    \<Rightarrow> (resource_id \<times> client_id list) list" where
  "unindex clientId resourceId idx =
     (case map_of idx resourceId of
        None \<Rightarrow> idx
      | Some subscribers \<Rightarrow>
          (let subscribers' = set_delete clientId subscribers
           in if length subscribers' = 0 then AList.delete resourceId idx
              else AList.update resourceId subscribers' idx))"

definition handleDisconnection :: "manager \<Rightarrow> client_id \<Rightarrow> manager" where
  "handleDisconnection st clientId =
     (case map_of (clients st) clientId of
        None \<Rightarrow> st
      | Some client \<Rightarrow>
          st\<lparr>m_subscriptions := fold (unindex clientId) (c_subscriptions client) (m_subscriptions st),
             clients := AList.delete clientId (clients st)\<rparr>)"

definition sendToClient :: "manager \<Rightarrow> client_id \<Rightarrow> ws_message \<Rightarrow> manager" where
  "sendToClient st clientId message =
     (case map_of (clients st) clientId of
        None \<Rightarrow> st
      | Some client \<Rightarrow>
          if readyState (c_ws client) \<noteq> OPEN then st
          else if sendThrows (c_ws client) then handleDisconnection st clientId
          else st\<lparr>wire := wire st @ [(clientId, Send message)]\<rparr>)"

definition handleConnection :: "ws_config \<Rightarrow> manager \<Rightarrow> nat \<Rightarrow> client_id \<Rightarrow> socket \<Rightarrow> manager" where
  "handleConnection cfg st now clientId sock =
     (if length (clients st) \<ge> maxConnections cfg
      then st\<lparr>wire := wire st @ [(clientId, CloseWith 1013)]\<rparr>
      else
        (let client = \<lparr>c_id = clientId, c_ws = sock, c_subscriptions = [], lastSeen = now\<rparr>;
             st1 = st\<lparr>clients := AList.update clientId client (clients st)\<rparr>
         in sendToClient st1 clientId (ConnectedMsg clientId now)))"

definition handleSubscription :: "manager \<Rightarrow> nat \<Rightarrow> client_id \<Rightarrow> resource_id \<Rightarrow> manager" where
  "handleSubscription st now clientId resourceId =
     (case map_of (clients st) clientId of
        None \<Rightarrow> st
      | Some client \<Rightarrow>
          (let client' = client\<lparr>c_subscriptions := set_add resourceId (c_subscriptions client)\<rparr>;
               idx1 = (if map_of (m_subscriptions st) resourceId = None
                       then AList.update resourceId [] (m_subscriptions st)
                       else m_subscriptions st);
               idx2 = (case map_of idx1 resourceId of
                         None \<Rightarrow> idx1
                       | Some subscribers \<Rightarrow> AList.update resourceId (set_add clientId subscribers) idx1);
               st1 = st\<lparr>clients := AList.update clientId client' (clients st),
                        m_subscriptions := idx2\<rparr>
           in sendToClient st1 clientId (SubscribedMsg resourceId now)))"

definition handleUnsubscription :: "manager \<Rightarrow> nat \<Rightarrow> client_id \<Rightarrow> resource_id \<Rightarrow> manager" where
  "handleUnsubscription st now clientId resourceId =
     (case map_of (clients st) clientId of
        None \<Rightarrow> st
      | Some client \<Rightarrow>
          (let client' = client\<lparr>c_subscriptions := set_delete resourceId (c_subscriptions client)\<rparr>;
               st1 = st\<lparr>clients := AList.update clientId client' (clients st),
                        m_subscriptions := unindex clientId resourceId (m_subscriptions st)\<rparr>
           in sendToClient st1 clientId (UnsubscribedMsg resourceId now)))"

definition type_text :: "string option \<Rightarrow> string" where
  "type_text t = (case t of None \<Rightarrow> ''undefined'' | Some s \<Rightarrow> s)"

definition handleMessage :: "manager \<Rightarrow> nat \<Rightarrow> client_id \<Rightarrow> raw_data \<Rightarrow> manager" where
  "handleMessage st now clientId data =
     (case map_of (clients st) clientId of
        None \<Rightarrow> st
      | Some client \<Rightarrow>
          (let st1 = st\<lparr>clients := AList.update clientId (client\<lparr>lastSeen := now\<rparr>) (clients st)\<rparr>
           in case data of
                Malformed \<Rightarrow> sendToClient st1 clientId (ErrorMsg ''Invalid message format'')
              | Json t resourceId \<Rightarrow>
                  if t = Some ''ping'' then sendToClient st1 clientId PongMsg
                  else if t = Some ''subscribe'' then handleSubscription st1 now clientId resourceId
                  else if t = Some ''unsubscribe'' then handleUnsubscription st1 now clientId resourceId
                  else sendToClient st1 clientId
                         (ErrorMsg (''Unknown message type: '' @ type_text t))))"

text \<open>The \<^verbatim>\<open>pong\<close> handler registered by \<^verbatim>\<open>handleConnection\<close>.\<close>

definition handlePong :: "manager \<Rightarrow> nat \<Rightarrow> client_id \<Rightarrow> manager" where
  "handlePong st now clientId =
     (case map_of (clients st) clientId of
        None \<Rightarrow> st
      | Some client \<Rightarrow> st\<lparr>clients := AList.update clientId (client\<lparr>lastSeen := now\<rparr>) (clients st)\<rparr>)"

text \<open>
  \<^verbatim>\<open>broadcastMetadataUpdate\<close> iterates over the Set object that is stored in the index,
  while \<^verbatim>\<open>sendToClient\<close> may delete from that very object (through
  \<^verbatim>\<open>handleDisconnection\<close>). An element deleted from a Set before the iterator reaches
  it is not visited: after each send the ids still to visit are cut down to those
  still in the live Set. A Set that became empty has left the index, and then nothing
  is left to visit.
\<close>

definition live_subscribers :: "manager \<Rightarrow> resource_id \<Rightarrow> client_id list" where
  "live_subscribers st resourceId =
     (case map_of (m_subscriptions st) resourceId of None \<Rightarrow> [] | Some subscribers \<Rightarrow> subscribers)"

function broadcast_loop :: "manager \<Rightarrow> metadata_update \<Rightarrow> client_id list \<Rightarrow> manager" where
  "broadcast_loop st update [] = st"
| "broadcast_loop st update (clientId # rest) =
     (let st' = sendToClient st clientId (UpdateMsg update)
      in broadcast_loop st' update
           (filter (\<lambda>c. c \<in> set (live_subscribers st' (u_resourceId update))) rest))"
  by pat_completeness auto
termination
  by (relation "measure (\<lambda>(st, update, cs). length cs)") (auto simp: less_Suc_eq_le)

definition broadcastMetadataUpdate :: "manager \<Rightarrow> metadata_update \<Rightarrow> manager" where
  "broadcastMetadataUpdate st update =
     (case map_of (m_subscriptions st) (u_resourceId update) of
        None \<Rightarrow> st
      | Some subscribers \<Rightarrow>
          if length subscribers = 0 then st
          else broadcast_loop st update subscribers)"

text \<open>
  The body of the interval callback of \<^verbatim>\<open>startHeartbeat\<close>, for one entry of
  \<^verbatim>\<open>clients.entries()\<close>; an entry deleted before the iterator reaches it is skipped.
  In JavaScript \<^verbatim>\<open>now - client.lastSeen\<close> may be negative, and is then not above the
  timeout; the truncated difference of \<open>nat\<close> is 0 there, with the same outcome.
\<close>

definition heartbeat_body :: "ws_config \<Rightarrow> nat \<Rightarrow> client_id \<Rightarrow> manager \<Rightarrow> manager" where
  "heartbeat_body cfg now clientId st =
     (case map_of (clients st) clientId of
        None \<Rightarrow> st
      | Some client \<Rightarrow>
          if now - lastSeen client > heartbeatInterval cfg * 2
          then handleDisconnection (st\<lparr>wire := wire st @ [(clientId, Terminate)]\<rparr>) clientId
          else if readyState (c_ws client) = OPEN
          then st\<lparr>wire := wire st @ [(clientId, Ping)]\<rparr>
          else st)"

definition heartbeat :: "ws_config \<Rightarrow> manager \<Rightarrow> nat \<Rightarrow> manager" where
  "heartbeat cfg st now = fold (heartbeat_body cfg now) (map fst (clients st)) st"

text \<open>\<^verbatim>\<open>close()\<close>: every registered socket is closed with code 1001.\<close>

definition close_all :: "manager \<Rightarrow> manager" where
  "close_all st = st\<lparr>wire := wire st @ map (\<lambda>(clientId, client). (clientId, CloseWith 1001)) (clients st)\<rparr>"

text \<open>
  What the environment does to a registered socket between two handlers: its
  \<^verbatim>\<open>readyState\<close> and its readiness to fail change.
\<close>

definition socket_change :: "manager \<Rightarrow> client_id \<Rightarrow> socket \<Rightarrow> manager" where
  "socket_change st clientId sock =
     (case map_of (clients st) clientId of
        None \<Rightarrow> st
      | Some client \<Rightarrow> st\<lparr>clients := AList.update clientId (client\<lparr>c_ws := sock\<rparr>) (clients st)\<rparr>)"

subsection \<open>The server as a transition system\<close>

datatype event =
    EvConnection nat client_id socket
  | EvMessage nat client_id raw_data
  | EvClose client_id
  | EvError client_id
  | EvPong nat client_id
  | EvBroadcast metadata_update
  | EvHeartbeat nat
  | EvShutdown
  | EvSocket client_id socket

fun step :: "ws_config \<Rightarrow> manager \<Rightarrow> event \<Rightarrow> manager" where
  "step cfg st (EvConnection now clientId sock) = handleConnection cfg st now clientId sock"
| "step cfg st (EvMessage now clientId data) = handleMessage st now clientId data"
| "step cfg st (EvClose clientId) = handleDisconnection st clientId"
| "step cfg st (EvError clientId) = handleDisconnection st clientId"
| "step cfg st (EvPong now clientId) = handlePong st now clientId"
| "step cfg st (EvBroadcast update) = broadcastMetadataUpdate st update"
| "step cfg st (EvHeartbeat now) = heartbeat cfg st now"
| "step cfg st EvShutdown = close_all st"
| "step cfg st (EvSocket clientId sock) = socket_change st clientId sock"

text \<open>
  \<^verbatim>\<open>uuidv4()\<close> gives a connection an id that no registered connection has; every other
  event can occur in every state.
\<close>

fun admissible :: "manager \<Rightarrow> event \<Rightarrow> bool" where
  "admissible st (EvConnection now clientId sock) = (map_of (clients st) clientId = None)"
| "admissible st ev = True"

inductive reachable :: "ws_config \<Rightarrow> manager \<Rightarrow> bool" for cfg :: ws_config where
  reachable_init: "reachable cfg manager_init"
| reachable_step: "reachable cfg st \<Longrightarrow> admissible st ev \<Longrightarrow> reachable cfg (step cfg st ev)"

text \<open>The two views of the subscriptions that have to agree.\<close>

definition subscribers_of :: "manager \<Rightarrow> resource_id \<Rightarrow> client_id set" where
  "subscribers_of st resourceId = set (live_subscribers st resourceId)"

definition subscriptions_of :: "manager \<Rightarrow> client_id \<Rightarrow> resource_id set" where
  "subscriptions_of st clientId =
     (case map_of (clients st) clientId of None \<Rightarrow> {} | Some client \<Rightarrow> set (c_subscriptions client))"

subsection \<open>Notions for the statements about the server, and an example state\<close>

definition purge :: "client_id \<Rightarrow> client_id list option \<Rightarrow> client_id list option" where
  "purge c e = (case e of None \<Rightarrow> None
                | Some s \<Rightarrow> if removeAll c s = [] then None else Some (removeAll c s))"

definition consistent :: "manager \<Rightarrow> bool" where
  "consistent st \<longleftrightarrow>
     (\<forall>r c. c \<in> subscribers_of st r \<longleftrightarrow> r \<in> subscriptions_of st c) \<and>
     (\<forall>r s. map_of (m_subscriptions st) r = Some s \<longrightarrow> s \<noteq> [] \<and> distinct s) \<and>
     distinct (map fst (clients st)) \<and>
     distinct (map fst (m_subscriptions st))"

definition members :: "'a list option \<Rightarrow> 'a set" where
  "members e = (case e of None \<Rightarrow> {} | Some s \<Rightarrow> set s)"

definition deliverable :: "manager \<Rightarrow> client_id \<Rightarrow> bool" where
  "deliverable st c =
     (case map_of (clients st) c of None \<Rightarrow> False
      | Some client \<Rightarrow> readyState (c_ws client) = OPEN \<and> \<not> sendThrows (c_ws client))"

definition failing :: "manager \<Rightarrow> client_id \<Rightarrow> bool" where
  "failing st c =
     (case map_of (clients st) c of None \<Rightarrow> False
      | Some client \<Rightarrow> readyState (c_ws client) = OPEN \<and> sendThrows (c_ws client))"

fun admissible_all :: "ws_config \<Rightarrow> manager \<Rightarrow> event list \<Rightarrow> bool" where
  "admissible_all cfg st [] = True"
| "admissible_all cfg st (ev # evs) = (admissible st ev \<and> admissible_all cfg (step cfg st ev) evs)"

definition demo_cfg :: ws_config where
  "demo_cfg = \<lparr>heartbeatInterval = 30000, maxConnections = 1000\<rparr>"

definition demo_events :: "event list" where
  "demo_events =
     [EvConnection 1 ''a'' \<lparr>readyState = OPEN, sendThrows = False\<rparr>,
      EvConnection 2 ''b'' \<lparr>readyState = OPEN, sendThrows = False\<rparr>,
      EvConnection 3 ''c'' \<lparr>readyState = OPEN, sendThrows = False\<rparr>,
      EvConnection 4 ''d'' \<lparr>readyState = OPEN, sendThrows = False\<rparr>,
      EvMessage 5 ''a'' (Json (Some ''subscribe'') ''r''),
      EvMessage 6 ''b'' (Json (Some ''subscribe'') ''r''),
      EvMessage 7 ''c'' (Json (Some ''subscribe'') ''r''),
      EvMessage 8 ''d'' (Json (Some ''subscribe'') ''r''),
      EvMessage 9 ''b'' (Json (Some ''subscribe'') ''q''),
      EvSocket ''b'' \<lparr>readyState = OPEN, sendThrows = True\<rparr>,
      EvSocket ''d'' \<lparr>readyState = CLOSING, sendThrows = False\<rparr>]"

definition demo :: manager where
  "demo = foldl (step demo_cfg) manager_init demo_events"

definition index_pairs :: "manager \<Rightarrow> (resource_id \<times> client_id) set" where
  "index_pairs st = (\<Union>(r, s) \<in> set (m_subscriptions st). (\<lambda>c. (r, c)) ` set s)"

definition registry_pairs :: "manager \<Rightarrow> (resource_id \<times> client_id) set" where
  "registry_pairs st = (\<Union>(c, client) \<in> set (clients st). (\<lambda>r. (r, c)) ` set (c_subscriptions client))"

definition not_open :: "manager \<Rightarrow> client_id \<Rightarrow> bool" where
  "not_open st c =
     (case map_of (clients st) c of None \<Rightarrow> True
      | Some client \<Rightarrow> readyState (c_ws client) \<noteq> OPEN)"

definition demo_update :: metadata_update where
  "demo_update = \<lparr>u_resourceId = ''r'', u_changeType = Updated, u_timestamp = 10, u_metadata = Some ''m''\<rparr>"

section \<open>Client: WebSocketTransport (packages/javascript-sdk/src/transport/WebSocketTransport.ts)\<close>

text \<open>
  What the clients write: \<^verbatim>\<open>EAMPClient\<close> sends objects \<^verbatim>\<open>{action, resourceId}\<close>, the
  transport's heartbeat and the React provider send objects \<^verbatim>\<open>{type, resourceId?}\<close>.
\<close>

datatype out_message = ActionMsg string resource_id | TypeMsg string "resource_id option"

datatype frame = Data out_message | CloseFrame nat

text \<open>What a client receives, once parsed: the fields a \<^verbatim>\<open>metadata_updated\<close> message has.\<close>

record in_message =
  i_type :: string
  i_resourceId :: resource_id
  i_changeType :: change_type
  i_timestamp :: nat
  i_metadata :: "payload option"

datatype raw_in = MalformedIn | JsonIn in_message

datatype js_error = NetworkError string | ValidationError string | EAMPClientError string | PlainError string

datatype transport_event = Connected | Disconnected | MessageEv in_message | ErrorEv js_error

datatype timer_kind = HeartbeatTick | PongTimeout | ReconnectSleep nat

text \<open>
  The fields of the class, and what the transport does to the outside: \<open>timers\<close> are the
  timers that are set and not cleared (with the delay of a \<^verbatim>\<open>sleep\<close>), \<open>frames\<close> are the
  messages written to the socket and the calls of \<^verbatim>\<open>close\<close> on it, \<open>emitted\<close> the events
  emitted. \<open>t_ws\<close> is the
  \<^verbatim>\<open>readyState\<close> of \<^verbatim>\<open>this.ws\<close> (\<open>None\<close> for \<^verbatim>\<open>undefined\<close>), and \<open>send_script\<close> says for
  the next calls of \<^verbatim>\<open>ws.send\<close> whether they throw (none does once it is used up).
\<close>

record transport =
  t_ws :: "ready_state option"
  reconnectAttempts :: nat
  maxReconnectAttempts :: nat
  reconnectDelay :: nat
  isReconnecting :: bool
  messageQueue :: "out_message list"
  t_heartbeatInterval :: "nat option"
  heartbeatTimeoutId :: "nat option"
  timers :: "(nat \<times> timer_kind) list"
  next_timer :: nat
  frames :: "frame list"
  emitted :: "transport_event list"
  send_script :: "bool list"

definition transport_init :: transport where
  "transport_init =
     \<lparr>t_ws = None, reconnectAttempts = 0, maxReconnectAttempts = 5, reconnectDelay = 1000,
      isReconnecting = False, messageQueue = [], t_heartbeatInterval = None,
      heartbeatTimeoutId = None, timers = [], next_timer = 0, frames = [], emitted = [],
      send_script = []\<rparr>"

definition isConnected :: "transport \<Rightarrow> bool" where
  "isConnected t = (t_ws t = Some OPEN)"

definition emit :: "transport_event \<Rightarrow> transport \<Rightarrow> transport" where
  "emit ev t = t\<lparr>emitted := emitted t @ [ev]\<rparr>"

text \<open>\<^verbatim>\<open>this.ws!.send(JSON.stringify(message))\<close>: \<open>Inl\<close> when the call throws.\<close>

definition ws_send :: "transport \<Rightarrow> out_message \<Rightarrow> transport + transport" where
  "ws_send t message =
     (case send_script t of
        [] \<Rightarrow> Inr (t\<lparr>frames := frames t @ [Data message]\<rparr>)
      | throws # rest \<Rightarrow>
          if throws then Inl (t\<lparr>send_script := rest\<rparr>)
          else Inr (t\<lparr>frames := frames t @ [Data message], send_script := rest\<rparr>))"

definition set_timer :: "timer_kind \<Rightarrow> transport \<Rightarrow> transport" where
  "set_timer kind t = t\<lparr>timers := timers t @ [(next_timer t, kind)], next_timer := Suc (next_timer t)\<rparr>"

definition clear_timer :: "nat \<Rightarrow> transport \<Rightarrow> transport" where
  "clear_timer i t = t\<lparr>timers := filter (\<lambda>(j, kind). j \<noteq> i) (timers t)\<rparr>"

definition startHeartbeat :: "transport \<Rightarrow> transport" where
  "startHeartbeat t = (set_timer HeartbeatTick t)\<lparr>t_heartbeatInterval := Some (next_timer t)\<rparr>"

definition stopHeartbeat :: "transport \<Rightarrow> transport" where
  "stopHeartbeat t =
     (let t1 = (case t_heartbeatInterval t of
                  None \<Rightarrow> t
                | Some i \<Rightarrow> (clear_timer i t)\<lparr>t_heartbeatInterval := None\<rparr>)
      in case heartbeatTimeoutId t1 of
           None \<Rightarrow> t1
         | Some i \<Rightarrow> (clear_timer i t1)\<lparr>heartbeatTimeoutId := None\<rparr>)"

definition resetHeartbeatTimeout :: "transport \<Rightarrow> transport" where
  "resetHeartbeatTimeout t =
     (case heartbeatTimeoutId t of
        None \<Rightarrow> t
      | Some i \<Rightarrow> (clear_timer i t)\<lparr>heartbeatTimeoutId := None\<rparr>)"

text \<open>
  The callback of the heartbeat interval. The send is outside any \<^verbatim>\<open>try\<close>: when it
  throws, the callback ends there.
\<close>

definition heartbeat_tick :: "transport \<Rightarrow> transport" where
  "heartbeat_tick t =
     (if isConnected t
      then (case ws_send t (TypeMsg ''ping'' None) of
              Inl t' \<Rightarrow> t'
            | Inr t' \<Rightarrow> (set_timer PongTimeout t')\<lparr>heartbeatTimeoutId := Some (next_timer t')\<rparr>)
      else t)"

text \<open>
  The \<^verbatim>\<open>readyState\<close> of a socket after \<^verbatim>\<open>close\<close> was called on it: a socket that is not
  yet CLOSED reads CLOSING at once.
\<close>

definition closing :: "ready_state \<Rightarrow> ready_state" where
  "closing s = (case s of CLOSED \<Rightarrow> CLOSED | _ \<Rightarrow> CLOSING)"

text \<open>The callback of the pong timeout \<open>i\<close>, which has fired: \<^verbatim>\<open>this.ws?.close(1001, ...)\<close>.\<close>

definition pong_timeout :: "nat \<Rightarrow> transport \<Rightarrow> transport" where
  "pong_timeout i t =
     (let t1 = clear_timer i t
      in case t_ws t1 of
           None \<Rightarrow> t1
         | Some s \<Rightarrow> t1\<lparr>frames := frames t1 @ [CloseFrame 1001], t_ws := Some (closing s)\<rparr>)"

function flushMessageQueue :: "transport \<Rightarrow> transport" where
  "flushMessageQueue t =
     (if length (messageQueue t) > 0 \<and> isConnected t
      then (case messageQueue t of
              [] \<Rightarrow> t
            | message # rest \<Rightarrow>
                (case ws_send (t\<lparr>messageQueue := rest\<rparr>) message of
                   Inr t' \<Rightarrow> flushMessageQueue t'
                 | Inl t' \<Rightarrow> t'\<lparr>messageQueue := message # messageQueue t'\<rparr>))
      else t)"
  by pat_completeness auto
termination
  by (relation "measure (\<lambda>t. length (messageQueue t))")
     (auto simp: ws_send_def split: list.splits if_splits)

text \<open>
  \<^verbatim>\<open>reconnect()\<close> up to its \<^verbatim>\<open>await this.sleep(delay)\<close>: the guard, the flag, the counter
  and the timer of the sleep.
\<close>

definition reconnect_begin :: "transport \<Rightarrow> transport" where
  "reconnect_begin t =
     (if isReconnecting t \<or> reconnectAttempts t \<ge> maxReconnectAttempts t then t
      else
        (let t1 = t\<lparr>isReconnecting := True, reconnectAttempts := reconnectAttempts t + 1\<rparr>;
             delay = min (reconnectDelay t1 * 2 ^ (reconnectAttempts t1 - 1)) 30000
         in set_timer (ReconnectSleep delay) t1))"

text \<open>The handler of the socket's \<^verbatim>\<open>open\<close> event, registered by \<^verbatim>\<open>connect\<close>.\<close>

definition on_open :: "transport \<Rightarrow> transport" where
  "on_open t =
     emit Connected
       (flushMessageQueue
          (startHeartbeat (t\<lparr>reconnectAttempts := 0, isReconnecting := False\<rparr>)))"

text \<open>The handler of the socket's \<^verbatim>\<open>close\<close> event, registered by \<^verbatim>\<open>setupEventHandlers\<close>.\<close>

definition on_close :: "nat \<Rightarrow> transport \<Rightarrow> transport" where
  "on_close code t =
     (let t1 = emit Disconnected (stopHeartbeat t)
      in if code \<noteq> 1000 \<and> \<not> isReconnecting t1 \<and> reconnectAttempts t1 < maxReconnectAttempts t1
         then reconnect_begin t1
         else t1)"

text \<open>The handler of the socket's \<^verbatim>\<open>error\<close> event, registered by \<^verbatim>\<open>setupEventHandlers\<close>.\<close>

definition on_error :: "string \<Rightarrow> transport \<Rightarrow> transport" where
  "on_error msg t = emit (ErrorEv (NetworkError (''WebSocket error: '' @ msg))) t"

text \<open>The handler of the socket's \<^verbatim>\<open>message\<close> event.\<close>

definition on_message :: "raw_in \<Rightarrow> transport \<Rightarrow> transport" where
  "on_message data t =
     (case data of
        MalformedIn \<Rightarrow> emit (ErrorEv (PlainError ''Invalid WebSocket message format'')) t
      | JsonIn message \<Rightarrow>
          if i_type message = ''pong'' then resetHeartbeatTimeout t
          else emit (MessageEv message) t)"

text \<open>
  How an attempt to connect ends: the socket opens, or it fails, and then the socket
  emits \<^verbatim>\<open>error\<close> and \<^verbatim>\<open>close\<close> (code 1006) before the rejected promise is handled.
\<close>

datatype connect_outcome = Opens | Fails

text \<open>
  \<^verbatim>\<open>connect()\<close> with the events of its socket: \<open>Inr\<close> when the promise resolves, \<open>Inl\<close>
  when it is rejected.
\<close>

definition connect :: "connect_outcome \<Rightarrow> transport \<Rightarrow> transport + transport" where
  "connect outcome t =
     (if isConnected t then Inr t
      else
        (let t1 = t\<lparr>t_ws := Some CONNECTING\<rparr>
         in case outcome of
              Opens \<Rightarrow> Inr (on_open (t1\<lparr>t_ws := Some OPEN\<rparr>))
            | Fails \<Rightarrow> Inl (on_close 1006 (on_error ''connect failed'' (t1\<lparr>t_ws := Some CLOSED\<rparr>)))))"

text \<open>A number as the template literal of the error message prints it.\<close>

definition digit_char :: "nat \<Rightarrow> char" where
  "digit_char d = ''0123456789'' ! (d mod 10)"

function show_nat :: "nat \<Rightarrow> string" where
  "show_nat n = (if n < 10 then [digit_char n] else show_nat (n div 10) @ [digit_char (n mod 10)])"
  by pat_completeness auto
termination
  by (relation "measure id") auto

declare show_nat.simps [simp del]

text \<open>
  \<^verbatim>\<open>reconnect()\<close> from the end of its sleep, whose timer \<open>i\<close> has fired:
  \<^verbatim>\<open>await this.connect()\<close> and the \<^verbatim>\<open>catch\<close> block.
\<close>

definition reconnect_resume :: "nat \<Rightarrow> connect_outcome \<Rightarrow> transport \<Rightarrow> transport" where
  "reconnect_resume i outcome t =
     (case connect outcome (clear_timer i t) of
        Inr t' \<Rightarrow> t'
      | Inl t' \<Rightarrow>
          if reconnectAttempts t' \<ge> maxReconnectAttempts t'
          then emit (ErrorEv (NetworkError (''Failed to reconnect after ''
                                              @ show_nat (maxReconnectAttempts t') @ '' attempts'')))
                 (t'\<lparr>isReconnecting := False\<rparr>)
          else reconnect_begin t')"

text \<open>
  \<^verbatim>\<open>send(message)\<close>, up to the sleep of the \<^verbatim>\<open>reconnect()\<close> it may start: \<open>Inl\<close> is the
  \<^verbatim>\<open>NetworkError\<close> thrown when the socket's send throws.
\<close>

definition send :: "out_message \<Rightarrow> transport \<Rightarrow> js_error + transport" where
  "send message t =
     (if \<not> isConnected t
      then (let t1 = t\<lparr>messageQueue := messageQueue t @ [message]\<rparr>
            in if \<not> isReconnecting t1 then Inr (reconnect_begin t1) else Inr t1)
      else (case ws_send t message of
              Inr t' \<Rightarrow> Inr t'
            | Inl t' \<Rightarrow> Inl (NetworkError ''Failed to send WebSocket message'')))"

definition disconnect :: "transport \<Rightarrow> transport" where
  "disconnect t =
     (let t1 = stopHeartbeat t;
          t2 = (case t_ws t1 of
                  None \<Rightarrow> t1
                | Some s \<Rightarrow> t1\<lparr>frames := frames t1 @ [CloseFrame 1000], t_ws := None\<rparr>)
      in t2\<lparr>messageQueue := [], isReconnecting := False, reconnectAttempts := 0\<rparr>)"

text \<open>The sleeps of \<^verbatim>\<open>reconnect()\<close> that are pending, with their delays.\<close>

definition pending_reconnects :: "transport \<Rightarrow> (nat \<times> timer_kind) list" where
  "pending_reconnects t =
     filter (\<lambda>(i, kind). case kind of ReconnectSleep d \<Rightarrow> True | _ \<Rightarrow> False) (timers t)"

text \<open>
  How many messages of a queue a flush writes: all of them, unless a send throws
  earlier.
\<close>

fun flushed :: "bool list \<Rightarrow> 'a list \<Rightarrow> nat" where
  "flushed script [] = 0"
| "flushed [] (m # q) = Suc (length q)"
| "flushed (throws # script) (m # q) = (if throws then 0 else Suc (flushed script q))"

section \<open>Client: EAMPClient (packages/javascript-sdk/src/client/EAMPClient.ts)\<close>

text \<open>The entry \<^verbatim>\<open>MemoryCache.set\<close> stores (utils/MemoryCache.ts).\<close>

record cache_entry =
  ce_value :: payload
  expiresAt :: nat
  createdAt :: nat
  lastAccessed :: nat
  accessCount :: nat

type_synonym memory_cache = "(resource_id \<times> cache_entry) list"

definition cache_set :: "nat \<Rightarrow> nat \<Rightarrow> resource_id \<Rightarrow> payload \<Rightarrow> memory_cache \<Rightarrow> memory_cache" where
  "cache_set now ttl key v ca =
     AList.update key
       \<lparr>ce_value = v, expiresAt = now + ttl, createdAt = now, lastAccessed = now, accessCount = 0\<rparr> ca"

text \<open>What the cache holds for a key, if there is a cache.\<close>

definition cached_value :: "memory_cache option \<Rightarrow> resource_id \<Rightarrow> payload option" where
  "cached_value ca key =
     (case ca of None \<Rightarrow> None | Some entries \<Rightarrow> map_option ce_value (map_of entries key))"

text \<open>
  A listener of the application is a black box: it is known by its identity and by
  whether a call of it returns or throws. \<^verbatim>\<open>emit\<close> of eventemitter3 calls the listeners
  of an event in the order of their registration and catches nothing: a listener that
  throws ends the \<^verbatim>\<open>emit\<close>, and the exception reaches the caller.
\<close>

datatype outcome = Returns | Throws

datatype callback = Callback (cb_id: nat) (cb_outcome: outcome)

text \<open>
  What the client does to the application: the events it emits, and the calls of the
  \<^verbatim>\<open>metadataUpdated\<close> listeners, each with the update it is given and with what the
  cache holds for the update's resourceId at the time of the call.
\<close>

datatype client_event =
    EmitConnected
  | EmitDisconnected
  | EmitError js_error
  | Invoked nat metadata_update "payload option"

record eamp_client =
  ec_subscriptions :: "resource_id list"
  wsTransport :: "transport option"
  ec_cache :: "memory_cache option"
  cacheTTL :: nat
  baseURL :: "string option"
  ec_listeners :: "callback list"
  ec_log :: "client_event list"

definition client_init :: "string option \<Rightarrow> bool \<Rightarrow> eamp_client" where
  "client_init url cacheEnabled =
     \<lparr>ec_subscriptions = [], wsTransport = None,
      ec_cache = (if cacheEnabled then Some [] else None), cacheTTL = 300000,
      baseURL = url, ec_listeners = [], ec_log = []\<rparr>"

definition log_event :: "client_event \<Rightarrow> eamp_client \<Rightarrow> eamp_client" where
  "log_event ev c = c\<lparr>ec_log := ec_log c @ [ev]\<rparr>"

text \<open>
  \<^verbatim>\<open>this.emit('metadataUpdated', update)\<close>: the calls made, and whether a listener threw.
\<close>

fun run_listeners :: "callback list \<Rightarrow> metadata_update \<Rightarrow> payload option \<Rightarrow> client_event list \<times> bool" where
  "run_listeners [] update view = ([], False)"
| "run_listeners (l # ls) update view =
     (case cb_outcome l of
        Throws \<Rightarrow> ([Invoked (cb_id l) update view], True)
      | Returns \<Rightarrow>
          (let (calls, thrown) = run_listeners ls update view
           in (Invoked (cb_id l) update view # calls, thrown)))"

text \<open>
  The handler of the transport's \<^verbatim>\<open>message\<close> event. \<open>parse\<close> is
  \<^verbatim>\<open>EAMPMetadataSchema.parse\<close>, \<open>None\<close> when it throws; a falsy \<^verbatim>\<open>message.metadata\<close> is
  \<open>None\<close>. Everything is inside one \<^verbatim>\<open>try\<close>, whose \<^verbatim>\<open>catch\<close> emits an \<^verbatim>\<open>error\<close> event.
\<close>

definition client_on_message :: "(payload \<Rightarrow> payload option) \<Rightarrow> nat \<Rightarrow> in_message \<Rightarrow> eamp_client \<Rightarrow> eamp_client" where
  "client_on_message parse now message c =
     (if i_type message = ''metadata_updated''
      then
        (case (case i_metadata message of
                 None \<Rightarrow> Inr None
               | Some raw \<Rightarrow> (case parse raw of None \<Rightarrow> Inl () | Some md \<Rightarrow> Inr (Some md))) of
           Inl e \<Rightarrow> log_event (EmitError (ValidationError ''Invalid update message'')) c
         | Inr metadata \<Rightarrow>
             (let update = \<lparr>u_resourceId = i_resourceId message, u_changeType = i_changeType message,
                            u_timestamp = i_timestamp message, u_metadata = metadata\<rparr>;
                  c1 = (case ec_cache c of
                          None \<Rightarrow> c
                        | Some ca \<Rightarrow>
                            (case metadata of
                               None \<Rightarrow> c
                             | Some md \<Rightarrow>
                                 c\<lparr>ec_cache := Some (cache_set now (cacheTTL c) (u_resourceId update) md ca)\<rparr>));
                  (calls, thrown) = run_listeners (ec_listeners c1) update
                                      (cached_value (ec_cache c1) (u_resourceId update));
                  c2 = c1\<lparr>ec_log := ec_log c1 @ calls\<rparr>
              in if thrown
                 then log_event (EmitError (ValidationError ''Invalid update message'')) c2
                 else c2))
      else c)"

text \<open>The four handlers \<^verbatim>\<open>setupWebSocketHandlers\<close> registers on the transport.\<close>

definition client_on_event :: "(payload \<Rightarrow> payload option) \<Rightarrow> nat \<Rightarrow> transport_event \<Rightarrow> eamp_client \<Rightarrow> eamp_client" where
  "client_on_event parse now ev c =
     (case ev of
        Connected \<Rightarrow> log_event EmitConnected c
      | Disconnected \<Rightarrow> log_event EmitDisconnected c
      | MessageEv message \<Rightarrow> client_on_message parse now message c
      | ErrorEv e \<Rightarrow> log_event (EmitError e) c)"

text \<open>
  The client stores a new state of its transport, and its handlers see the events the
  transport has emitted on the way from the old state.
\<close>

definition store_transport :: "(payload \<Rightarrow> payload option) \<Rightarrow> nat \<Rightarrow> transport \<Rightarrow> transport \<Rightarrow> eamp_client \<Rightarrow> eamp_client" where
  "store_transport parse now t t' c =
     fold (client_on_event parse now) (drop (length (emitted t)) (emitted t')) (c\<lparr>wsTransport := Some t'\<rparr>)"

definition lift_transport :: "(payload \<Rightarrow> payload option) \<Rightarrow> nat \<Rightarrow> (transport \<Rightarrow> transport) \<Rightarrow> eamp_client \<Rightarrow> eamp_client" where
  "lift_transport parse now f c =
     (case wsTransport c of
        None \<Rightarrow> c
      | Some t \<Rightarrow> store_transport parse now t (f t) c)"

text \<open>
  \<^verbatim>\<open>subscribe(resourceId)\<close>, with the outcome of the connection attempt it may make; the
  second component is the exception it throws, if any.
\<close>

definition ec_subscribe :: "(payload \<Rightarrow> payload option) \<Rightarrow> nat \<Rightarrow> connect_outcome \<Rightarrow> resource_id
    \<Rightarrow> eamp_client \<Rightarrow> eamp_client \<times> js_error option" where
  "ec_subscribe parse now outcome resourceId c =
     (if resourceId = [] then (c, Some (EAMPClientError ''Resource ID is required''))
      else if resourceId \<in> set (ec_subscriptions c) then (c, None)
      else
        (let c1 = (if wsTransport c = None \<and> baseURL c \<noteq> None
                   then c\<lparr>wsTransport := Some transport_init\<rparr> else c)
         in case wsTransport c1 of
              None \<Rightarrow> (c1, Some (EAMPClientError ''WebSocket transport not available''))
            | Some t \<Rightarrow>
                (case connect outcome t of
                   Inl t' \<Rightarrow> (store_transport parse now t t' c1,
                              Some (NetworkError ''WebSocket connection failed''))
                 | Inr t' \<Rightarrow>
                     (let c2 = store_transport parse now t t' c1
                      in case send (ActionMsg ''subscribe'' resourceId) t' of
                           Inl e \<Rightarrow> (c2, Some e)
                         | Inr t'' \<Rightarrow>
                             ((store_transport parse now t' t'' c2)
                                \<lparr>ec_subscriptions := set_add resourceId (ec_subscriptions c2)\<rparr>,
                              None)))))"

definition ec_unsubscribe :: "(payload \<Rightarrow> payload option) \<Rightarrow> nat \<Rightarrow> resource_id
    \<Rightarrow> eamp_client \<Rightarrow> eamp_client \<times> js_error option" where
  "ec_unsubscribe parse now resourceId c =
     (if resourceId = [] \<or> resourceId \<notin> set (ec_subscriptions c) then (c, None)
      else
        (case wsTransport c of
           None \<Rightarrow> (c\<lparr>ec_subscriptions := set_delete resourceId (ec_subscriptions c)\<rparr>, None)
         | Some t \<Rightarrow>
             if isConnected t
             then (case send (ActionMsg ''unsubscribe'' resourceId) t of
                     Inl e \<Rightarrow> (c, Some e)
                   | Inr t' \<Rightarrow>
                       ((store_transport parse now t t' c)
                          \<lparr>ec_subscriptions := set_delete resourceId (ec_subscriptions c)\<rparr>, None))
             else (c\<lparr>ec_subscriptions := set_delete resourceId (ec_subscriptions c)\<rparr>, None)))"

section \<open>Client: EAMPProvider (packages/react-sdk/src/providers/EAMPProvider.tsx)\<close>

text \<open>
  \<^verbatim>\<open>subscriptionsRef\<close> maps a resourceId to a Set object of callbacks, and the function
  \<^verbatim>\<open>subscribe\<close> returns keeps a reference to that Set object, also after the entry has
  left the map: the Set objects live in a store, and the map holds their addresses.
  \<open>p_ws\<close> is the \<^verbatim>\<open>readyState\<close> of \<^verbatim>\<open>client.ws\<close> (\<open>None\<close> when it is \<^verbatim>\<open>undefined\<close>), \<open>p_sent\<close>
  what was written to it. A browser socket that is OPEN does not throw on \<^verbatim>\<open>send\<close>.
\<close>

datatype provider_event = Called nat "payload option" | ConsoleError

record provider =
  p_ws :: "ready_state option"
  subscriptionsRef :: "(resource_id \<times> nat) list"
  p_store :: "(nat \<times> callback list) list"
  p_next :: nat
  p_sent :: "out_message list"
  p_log :: "provider_event list"

text \<open>What \<^verbatim>\<open>subscribe\<close> returns: the resourceId, the Set object and the callback it closes over.\<close>

datatype handle = Handle resource_id nat callback

definition provider_init :: "ready_state option \<Rightarrow> provider" where
  "provider_init sock =
     \<lparr>p_ws = sock, subscriptionsRef = [], p_store = [], p_next = 0, p_sent = [], p_log = []\<rparr>"

definition p_send :: "out_message \<Rightarrow> provider \<Rightarrow> provider" where
  "p_send message p = (if p_ws p = Some OPEN then p\<lparr>p_sent := p_sent p @ [message]\<rparr> else p)"

definition callbacks_at :: "provider \<Rightarrow> nat \<Rightarrow> callback list" where
  "callbacks_at p a = (case map_of (p_store p) a of None \<Rightarrow> [] | Some cbs \<Rightarrow> cbs)"

definition p_subscribe :: "resource_id \<Rightarrow> callback \<Rightarrow> provider \<Rightarrow> provider \<times> handle" where
  "p_subscribe resourceId cb p =
     (let p1 = (if map_of (subscriptionsRef p) resourceId = None
                then p_send (TypeMsg ''subscribe'' (Some resourceId))
                       (p\<lparr>subscriptionsRef := AList.update resourceId (p_next p) (subscriptionsRef p),
                          p_store := AList.update (p_next p) [] (p_store p),
                          p_next := Suc (p_next p)\<rparr>)
                else p);
          a = (case map_of (subscriptionsRef p1) resourceId of None \<Rightarrow> p_next p1 | Some a \<Rightarrow> a)
      in (p1\<lparr>p_store := AList.update a (set_add cb (callbacks_at p1 a)) (p_store p1)\<rparr>,
          Handle resourceId a cb))"

text \<open>A call of the function that \<^verbatim>\<open>subscribe\<close> returned.\<close>

fun p_release :: "handle \<Rightarrow> provider \<Rightarrow> provider" where
  "p_release (Handle resourceId a cb) p =
     (let callbacks = set_delete cb (callbacks_at p a);
          p1 = p\<lparr>p_store := AList.update a callbacks (p_store p)\<rparr>
      in if length callbacks = 0
         then p_send (TypeMsg ''unsubscribe'' (Some resourceId))
                (p1\<lparr>subscriptionsRef := AList.delete resourceId (subscriptionsRef p1)\<rparr>)
         else p1)"

text \<open>\<^verbatim>\<open>callbacks.forEach(callback => callback(metadata))\<close>: the calls made, and whether one threw.\<close>

fun run_callbacks :: "callback list \<Rightarrow> payload option \<Rightarrow> provider_event list \<times> bool" where
  "run_callbacks [] metadata = ([], False)"
| "run_callbacks (cb # cbs) metadata =
     (case cb_outcome cb of
        Throws \<Rightarrow> ([Called (cb_id cb) metadata], True)
      | Returns \<Rightarrow>
          (let (calls, thrown) = run_callbacks cbs metadata
           in (Called (cb_id cb) metadata # calls, thrown)))"

text \<open>The \<^verbatim>\<open>message\<close> listener the provider adds to \<^verbatim>\<open>client.ws\<close>.\<close>

definition provider_on_message :: "raw_in \<Rightarrow> provider \<Rightarrow> provider" where
  "provider_on_message data p =
     (case data of
        MalformedIn \<Rightarrow> p\<lparr>p_log := p_log p @ [ConsoleError]\<rparr>
      | JsonIn message \<Rightarrow>
          if i_type message = ''metadata_updated''
          then (case map_of (subscriptionsRef p) (i_resourceId message) of
                  None \<Rightarrow> p
                | Some a \<Rightarrow>
                    (let (calls, thrown) = run_callbacks (callbacks_at p a) (i_metadata message)
                     in if thrown then p\<lparr>p_log := p_log p @ calls @ [ConsoleError]\<rparr>
                        else p\<lparr>p_log := p_log p @ calls\<rparr>))
          else p)"

text \<open>Registering a list of callbacks for one resourceId, and releasing a list of handles.\<close>

fun subscribe_all :: "resource_id \<Rightarrow> callback list \<Rightarrow> provider \<Rightarrow> provider \<times> handle list" where
  "subscribe_all resourceId [] p = (p, [])"
| "subscribe_all resourceId (cb # cbs) p =
     (let (p1, h) = p_subscribe resourceId cb p;
          (p2, hs) = subscribe_all resourceId cbs p1
      in (p2, h # hs))"

definition release_all :: "handle list \<Rightarrow> provider \<Rightarrow> provider" where
  "release_all hs p = fold p_release hs p"

section \<open>Notions for the statements about the clients, and example states\<close>

text \<open>The fields a flush does not write.\<close>

definition same_control :: "transport \<Rightarrow> transport \<Rightarrow> bool" where
  "same_control t t' \<longleftrightarrow>
     t_ws t' = t_ws t \<and> reconnectAttempts t' = reconnectAttempts t
     \<and> maxReconnectAttempts t' = maxReconnectAttempts t \<and> reconnectDelay t' = reconnectDelay t
     \<and> isReconnecting t' = isReconnecting t \<and> t_heartbeatInterval t' = t_heartbeatInterval t
     \<and> heartbeatTimeoutId t' = heartbeatTimeoutId t \<and> timers t' = timers t
     \<and> next_timer t' = next_timer t \<and> emitted t' = emitted t"

definition demo_transport :: transport where
  "demo_transport =
     transport_init\<lparr>t_ws := Some OPEN, reconnectAttempts := 2, isReconnecting := True,
       messageQueue := [ActionMsg ''subscribe'' ''a'', ActionMsg ''subscribe'' ''b'',
                        ActionMsg ''unsubscribe'' ''a''],
       send_script := [False, True]\<rparr>"

fun handle_callback :: "handle \<Rightarrow> callback" where
  "handle_callback (Handle r a cb) = cb"

definition demo_callbacks :: "callback list" where
  "demo_callbacks = [Callback 7 Returns, Callback 8 Returns, Callback 9 Returns]"

definition demo_handles :: "handle list" where
  "demo_handles = [Handle ''r'' 0 (Callback 8 Returns), Handle ''r'' 0 (Callback 9 Returns),
                   Handle ''r'' 0 (Callback 7 Returns)]"

definition demo_provider :: provider where
  "demo_provider =
     \<lparr>p_ws = Some OPEN, subscriptionsRef = [(''r'', 0)],
      p_store = [(0, [Callback 7 Returns, Callback 8 Returns, Callback 9 Returns])], p_next = 1,
      p_sent = [TypeMsg ''subscribe'' (Some ''r'')], p_log = []\<rparr>"

text \<open>The listeners an \<^verbatim>\<open>emit\<close> calls: those up to the first that throws, and that one.\<close>

fun called :: "callback list \<Rightarrow> callback list" where
  "called [] = []"
| "called (l # ls) = (if cb_outcome l = Throws then [l] else l # called ls)"

definition throws :: "callback list \<Rightarrow> bool" where
  "throws ls = (\<exists>l \<in> set ls. cb_outcome l = Throws)"

definition demo_message :: in_message where
  "demo_message = \<lparr>i_type = ''metadata_updated'', i_resourceId = ''r'', i_changeType = Updated,
                    i_timestamp = 3, i_metadata = Some ''m''\<rparr>"

definition demo_client :: eamp_client where
  "demo_client = (client_init (Some ''http://h'') True)
                   \<lparr>ec_listeners := [Callback 7 Throws, Callback 8 Returns]\<rparr>"

definition update_of :: "in_message \<Rightarrow> payload option \<Rightarrow> metadata_update" where
  "update_of message metadata =
     \<lparr>u_resourceId = i_resourceId message, u_changeType = i_changeType message,
      u_timestamp = i_timestamp message, u_metadata = metadata\<rparr>"

text \<open>
  A transport with an open connection (the heartbeat interval is timer 0), and the same
  transport with a pong timeout pending and messages queued.
\<close>

definition open_transport :: transport where
  "open_transport = on_open (transport_init\<lparr>t_ws := Some OPEN\<rparr>)"


text \<open>
  The scenario of claim C6: the open connection is closed with code 1006, the sleep of
  the reconnect (timer 1) ends, and the attempt to connect fails.
\<close>

definition after_close :: transport where
  "after_close = on_close 1006 (open_transport\<lparr>t_ws := Some CLOSED\<rparr>)"

definition after_fail :: transport where
  "after_fail = reconnect_resume 1 Fails after_close"

text \<open>What the transport of a client has written.\<close>

definition frames_of :: "eamp_client \<Rightarrow> frame list" where
  "frames_of c = (case wsTransport c of None \<Rightarrow> [] | Some t \<Rightarrow> frames t)"

text \<open>
  The scenario of claim C1: a client subscribes to three resourceIds, the connection is
  closed with code 1006, and the reconnect (its sleep is timer 1) finds the server again.
\<close>

definition subscribed3 :: eamp_client where
  "subscribed3 =
     fst (ec_subscribe Some 3 Opens ''c''
       (fst (ec_subscribe Some 2 Opens ''b''
         (fst (ec_subscribe Some 1 Opens ''a'' (client_init (Some ''http://h'') True))))))"

definition dropped3 :: eamp_client where
  "dropped3 = lift_transport Some 4 (\<lambda>t. on_close 1006 (t\<lparr>t_ws := Some CLOSED\<rparr>)) subscribed3"

definition reconnected3 :: eamp_client where
  "reconnected3 = lift_transport Some 5 (reconnect_resume 1 Opens) dropped3"

definition subscribed_client :: "resource_id list \<Rightarrow> frame list \<Rightarrow> eamp_client" where
  "subscribed_client subs fr =
     \<lparr>ec_subscriptions = subs, wsTransport = Some (open_transport\<lparr>frames := fr\<rparr>),
      ec_cache = Some [], cacheTTL = 300000, baseURL = Some ''http://h'', ec_listeners = [],
      ec_log = [EmitConnected]\<rparr>"

text \<open>\<^verbatim>\<open>subscribe\<close> and \<^verbatim>\<open>unsubscribe\<close> of \<^verbatim>\<open>EAMPClient\<close>, called n times, each call awaited.\<close>

definition subscribe_times :: "nat \<Rightarrow> (payload \<Rightarrow> payload option) \<Rightarrow> nat \<Rightarrow> connect_outcome
    \<Rightarrow> resource_id \<Rightarrow> eamp_client \<Rightarrow> eamp_client" where
  "subscribe_times n parse now outcome r c = ((\<lambda>c. fst (ec_subscribe parse now outcome r c)) ^^ n) c"

definition unsubscribe_times :: "nat \<Rightarrow> (payload \<Rightarrow> payload option) \<Rightarrow> nat
    \<Rightarrow> resource_id \<Rightarrow> eamp_client \<Rightarrow> eamp_client" where
  "unsubscribe_times n parse now r c = ((\<lambda>c. fst (ec_unsubscribe parse now r c)) ^^ n) c"

definition queue_of :: "eamp_client \<Rightarrow> out_message list" where
  "queue_of c = (case wsTransport c of None \<Rightarrow> [] | Some t \<Rightarrow> messageQueue t)"



section \<open>The server: index and registry, publish, liveness\<close>

lemma purge_idem: "purge c (purge c e) = purge c e"
  by (simp add: purge_def split: option.splits)

lemma map_of_unindex:
  "map_of (unindex c r idx) = (map_of idx)(r := purge c (map_of idx r))"
  by (auto simp: unindex_def purge_def set_delete_def Let_def update_conv' delete_conv'
           split: option.splits)

lemma map_of_fold_unindex:
  "map_of (fold (unindex c) rs idx) r =
     (if r \<in> set rs then purge c (map_of idx r) else map_of idx r)"
proof (induction rs arbitrary: idx)
  case Nil
  then show ?case by simp
next
  case (Cons a rs)
  then show ?case by (simp add: map_of_unindex purge_idem)
qed

lemma distinct_unindex:
  "distinct (map fst idx) \<Longrightarrow> distinct (map fst (unindex c r idx))"
  by (simp add: unindex_def Let_def distinct_update distinct_delete split: option.splits)

lemma distinct_fold_unindex:
  "distinct (map fst idx) \<Longrightarrow> distinct (map fst (fold (unindex c) rs idx))"
  by (induction rs arbitrary: idx) (simp_all add: distinct_unindex)

lemma removeAll_Nil_iff: "removeAll c s = [] \<longleftrightarrow> set s \<subseteq> {c}"
  by (induction s) auto

lemma subscribers_of_members: "subscribers_of st r = members (map_of (m_subscriptions st) r)"
  by (simp add: subscribers_of_def live_subscribers_def members_def split: option.splits)

lemma members_purge: "members (purge c e) = members e - {c}"
  by (auto simp: purge_def members_def removeAll_Nil_iff split: option.splits)

lemma handleDisconnection_index:
  assumes "consistent st"
  shows "map_of (m_subscriptions (handleDisconnection st c)) r = purge c (map_of (m_subscriptions st) r)"
proof (cases "map_of (clients st) c")
  case None
  with assms have "c \<notin> subscribers_of st r"
    by (simp add: consistent_def subscriptions_of_def)
  moreover from assms have "\<forall>s. map_of (m_subscriptions st) r = Some s \<longrightarrow> s \<noteq> []"
    by (simp add: consistent_def)
  ultimately have "purge c (map_of (m_subscriptions st) r) = map_of (m_subscriptions st) r"
    by (auto simp: purge_def subscribers_of_def live_subscribers_def split: option.splits)
  with None show ?thesis by (simp add: handleDisconnection_def)
next
  case (Some cl)
  show ?thesis
  proof (cases "r \<in> set (c_subscriptions cl)")
    case True
    with Some show ?thesis by (simp add: handleDisconnection_def map_of_fold_unindex)
  next
    case False
    with Some assms have "c \<notin> subscribers_of st r"
      by (simp add: consistent_def subscriptions_of_def)
    moreover from assms have "\<forall>s. map_of (m_subscriptions st) r = Some s \<longrightarrow> s \<noteq> []"
      by (simp add: consistent_def)
    ultimately have "purge c (map_of (m_subscriptions st) r) = map_of (m_subscriptions st) r"
      by (auto simp: purge_def subscribers_of_def live_subscribers_def split: option.splits)
    with Some False show ?thesis by (simp add: handleDisconnection_def map_of_fold_unindex)
  qed
qed

lemma handleDisconnection_clients:
  "map_of (clients (handleDisconnection st c)) = (map_of (clients st))(c := None)"
  by (auto simp: handleDisconnection_def delete_conv' split: option.splits)

lemma handleDisconnection_wire: "wire (handleDisconnection st c) = wire st"
  by (simp add: handleDisconnection_def split: option.splits)

lemma handleDisconnection_subscribers:
  assumes "consistent st"
  shows "subscribers_of (handleDisconnection st c) r = subscribers_of st r - {c}"
  using handleDisconnection_index [OF assms, of c r]
  by (simp add: subscribers_of_members members_purge)

lemma handleDisconnection_subscriptions:
  "subscriptions_of (handleDisconnection st c) c' = (if c' = c then {} else subscriptions_of st c')"
  by (simp add: subscriptions_of_def handleDisconnection_clients)

lemma handleDisconnection_consistent:
  assumes "consistent st"
  shows "consistent (handleDisconnection st c)"
  unfolding consistent_def
proof (intro conjI allI impI)
  fix r c'
  show "c' \<in> subscribers_of (handleDisconnection st c) r \<longleftrightarrow> r \<in> subscriptions_of (handleDisconnection st c) c'"
    using assms by (auto simp: handleDisconnection_subscribers [OF assms] handleDisconnection_subscriptions consistent_def)
next
  fix r s assume "map_of (m_subscriptions (handleDisconnection st c)) r = Some s"
  then have *: "purge c (map_of (m_subscriptions st) r) = Some s"
    by (simp add: handleDisconnection_index [OF assms])
  from * show "s \<noteq> []" by (auto simp: purge_def split: option.splits if_splits)
  from * assms show "distinct s"
    by (auto simp: purge_def consistent_def distinct_removeAll split: option.splits if_splits)
next
  from assms show "distinct (map fst (clients (handleDisconnection st c)))"
    by (simp add: handleDisconnection_def consistent_def distinct_delete split: option.splits)
  from assms show "distinct (map fst (m_subscriptions (handleDisconnection st c)))"
    by (simp add: handleDisconnection_def consistent_def distinct_fold_unindex split: option.splits)
qed

lemma consistent_wire [simp]: "consistent (st\<lparr>wire := w\<rparr>) = consistent st"
  by (simp add: consistent_def subscribers_of_def subscriptions_of_def live_subscribers_def)

lemma consistent_touch:
  assumes "consistent st" and "map_of (clients st) c = Some cl"
    and "c_subscriptions cl' = c_subscriptions cl"
  shows "consistent (st\<lparr>clients := AList.update c cl' (clients st)\<rparr>)"
proof -
  have "subscriptions_of (st\<lparr>clients := AList.update c cl' (clients st)\<rparr>) c' = subscriptions_of st c'" for c'
    using assms(2,3) by (simp add: subscriptions_of_def update_conv')
  moreover have "subscribers_of (st\<lparr>clients := AList.update c cl' (clients st)\<rparr>) r = subscribers_of st r" for r
    by (simp add: subscribers_of_def live_subscribers_def)
  ultimately show ?thesis
    using assms(1) by (simp add: consistent_def distinct_update)
qed

lemma sendToClient_cases:
  "sendToClient st c m = st \<or> sendToClient st c m = handleDisconnection st c
     \<or> sendToClient st c m = st\<lparr>wire := wire st @ [(c, Send m)]\<rparr>"
  by (simp add: sendToClient_def split: option.splits)

lemma sendToClient_consistent:
  "consistent st \<Longrightarrow> consistent (sendToClient st c m)"
  using sendToClient_cases [of st c m] by (auto simp: handleDisconnection_consistent)

lemma set_set_add [simp]: "set (set_add x xs) = insert x (set xs)"
  by (auto simp: set_add_def)

lemma distinct_set_add [simp]: "distinct (set_add x xs) = distinct xs"
  by (auto simp: set_add_def)

lemma set_add_nonempty [simp]: "set_add x xs \<noteq> []"
  by (auto simp: set_add_def)

lemma handleSubscription_consistent:
  assumes "consistent st"
  shows "consistent (handleSubscription st now c r)"
proof (cases "map_of (clients st) c")
  case None
  with assms show ?thesis by (simp add: handleSubscription_def)
next
  case (Some cl)
  define s0 where "s0 = (case map_of (m_subscriptions st) r of None \<Rightarrow> [] | Some s \<Rightarrow> s)"
  define idx1 where "idx1 = (if map_of (m_subscriptions st) r = None
                       then AList.update r [] (m_subscriptions st)
                       else m_subscriptions st)"
  define idx2 where "idx2 = (case map_of idx1 r of None \<Rightarrow> idx1
                       | Some subscribers \<Rightarrow> AList.update r (set_add c subscribers) idx1)"
  define st1 where "st1 = st\<lparr>clients := AList.update c (cl\<lparr>c_subscriptions := set_add r (c_subscriptions cl)\<rparr>) (clients st),
                        m_subscriptions := idx2\<rparr>"
  have eq: "handleSubscription st now c r = sendToClient st1 c (SubscribedMsg r now)"
    using Some unfolding handleSubscription_def Let_def st1_def idx2_def idx1_def by simp
  have m1: "map_of idx1 r = Some s0"
    by (auto simp: idx1_def s0_def update_conv')
  have m2: "map_of idx2 = (map_of (m_subscriptions st))(r \<mapsto> set_add c s0)"
    using m1 by (auto simp: idx2_def idx1_def update_conv')
  have d1: "distinct (map fst idx1)"
    using assms by (simp add: idx1_def consistent_def distinct_update)
  have d2: "distinct (map fst idx2)"
    using d1 m1 by (simp add: idx2_def distinct_update)
  have s0: "set s0 = subscribers_of st r" "distinct s0"
    using assms by (auto simp: s0_def subscribers_of_def live_subscribers_def consistent_def split: option.splits)
  have subs: "subscribers_of st1 r' = (if r' = r then insert c (subscribers_of st r) else subscribers_of st r')" for r'
    using s0 by (simp add: subscribers_of_members st1_def m2 members_def)
  have subn: "subscriptions_of st1 c' = (if c' = c then insert r (subscriptions_of st c) else subscriptions_of st c')" for c'
    using Some by (simp add: subscriptions_of_def st1_def update_conv')
  have "consistent st1"
    unfolding consistent_def
  proof (intro conjI allI impI)
    fix r' c'
    show "c' \<in> subscribers_of st1 r' \<longleftrightarrow> r' \<in> subscriptions_of st1 c'"
      using assms by (auto simp: subs subn consistent_def)
  next
    fix r' s assume a: "map_of (m_subscriptions st1) r' = Some s"
    then show "s \<noteq> []" using assms
      by (auto simp: st1_def m2 consistent_def split: if_splits)
    from a show "distinct s" using assms s0
      by (auto simp: st1_def m2 consistent_def split: if_splits)
  next
    show "distinct (map fst (clients st1))"
      using assms by (simp add: st1_def consistent_def distinct_update)
    show "distinct (map fst (m_subscriptions st1))"
      using d2 by (simp add: st1_def)
  qed
  then show ?thesis by (simp add: eq sendToClient_consistent)
qed

lemma handleUnsubscription_consistent:
  assumes "consistent st"
  shows "consistent (handleUnsubscription st now c r)"
proof (cases "map_of (clients st) c")
  case None
  with assms show ?thesis by (simp add: handleUnsubscription_def)
next
  case (Some cl)
  define st1 where "st1 = st\<lparr>clients := AList.update c (cl\<lparr>c_subscriptions := set_delete r (c_subscriptions cl)\<rparr>) (clients st),
                        m_subscriptions := unindex c r (m_subscriptions st)\<rparr>"
  have eq: "handleUnsubscription st now c r = sendToClient st1 c (UnsubscribedMsg r now)"
    using Some by (simp add: handleUnsubscription_def Let_def st1_def)
  have subs: "subscribers_of st1 r' = (if r' = r then subscribers_of st r - {c} else subscribers_of st r')" for r'
    by (simp add: subscribers_of_members st1_def map_of_unindex members_purge)
  have subn: "subscriptions_of st1 c' = (if c' = c then subscriptions_of st c - {r} else subscriptions_of st c')" for c'
    using Some by (auto simp: subscriptions_of_def st1_def update_conv' set_delete_def)
  have "consistent st1"
    unfolding consistent_def
  proof (intro conjI allI impI)
    fix r' c'
    show "c' \<in> subscribers_of st1 r' \<longleftrightarrow> r' \<in> subscriptions_of st1 c'"
      using assms by (auto simp: subs subn consistent_def)
  next
    fix r' s assume a: "map_of (m_subscriptions st1) r' = Some s"
    then show "s \<noteq> []" using assms
      by (auto simp: st1_def map_of_unindex purge_def consistent_def split: if_splits option.splits)
    from a show "distinct s" using assms
      by (auto simp: st1_def map_of_unindex purge_def consistent_def distinct_removeAll split: if_splits option.splits)
  next
    show "distinct (map fst (clients st1))"
      using assms by (simp add: st1_def consistent_def distinct_update)
    show "distinct (map fst (m_subscriptions st1))"
      using assms by (simp add: st1_def consistent_def distinct_unindex)
  qed
  then show ?thesis by (simp add: eq sendToClient_consistent)
qed

lemma handlePong_consistent: "consistent st \<Longrightarrow> consistent (handlePong st now c)"
  by (auto simp: handlePong_def consistent_touch split: option.splits)

lemma socket_change_consistent: "consistent st \<Longrightarrow> consistent (socket_change st c sock)"
  by (auto simp: socket_change_def consistent_touch split: option.splits)

lemma handleMessage_consistent:
  assumes "consistent st"
  shows "consistent (handleMessage st now c d)"
proof (cases "map_of (clients st) c")
  case None
  with assms show ?thesis by (simp add: handleMessage_def)
next
  case (Some cl)
  have "consistent (st\<lparr>clients := AList.update c (cl\<lparr>lastSeen := now\<rparr>) (clients st)\<rparr>)"
    using assms Some by (rule consistent_touch) simp
  with Some show ?thesis
    by (simp add: handleMessage_def Let_def sendToClient_consistent
          handleSubscription_consistent handleUnsubscription_consistent split: raw_data.splits)
qed

lemma handleConnection_consistent:
  assumes "consistent st" and "map_of (clients st) c = None"
  shows "consistent (handleConnection cfg st now c sock)"
proof (cases "length (clients st) \<ge> maxConnections cfg")
  case True
  with assms show ?thesis by (simp add: handleConnection_def)
next
  case False
  define st1 where "st1 = st\<lparr>clients := AList.update c \<lparr>c_id = c, c_ws = sock, c_subscriptions = [], lastSeen = now\<rparr> (clients st)\<rparr>"
  have "subscriptions_of st1 c' = subscriptions_of st c'" for c'
    using assms(2) by (simp add: subscriptions_of_def st1_def update_conv')
  moreover have "subscribers_of st1 r = subscribers_of st r" for r
    by (simp add: subscribers_of_def live_subscribers_def st1_def)
  ultimately have "consistent st1"
    using assms(1) by (simp add: consistent_def distinct_update st1_def)
  with False show ?thesis
    by (simp add: handleConnection_def Let_def st1_def sendToClient_consistent)
qed

lemma heartbeat_body_consistent: "consistent st \<Longrightarrow> consistent (heartbeat_body cfg now c st)"
  by (simp add: heartbeat_body_def handleDisconnection_consistent split: option.splits)

lemma fold_heartbeat_consistent:
  "consistent st \<Longrightarrow> consistent (fold (heartbeat_body cfg now) cs st)"
  by (induction cs arbitrary: st) (simp_all add: heartbeat_body_consistent)

lemma broadcast_loop_consistent:
  "consistent st \<Longrightarrow> consistent (broadcast_loop st u cs)"
  by (induction st u cs rule: broadcast_loop.induct) (simp_all add: Let_def sendToClient_consistent)

lemma step_consistent:
  "consistent st \<Longrightarrow> admissible st ev \<Longrightarrow> consistent (step cfg st ev)"
  by (cases ev)
     (simp_all add: handleConnection_consistent handleMessage_consistent
        handleDisconnection_consistent handlePong_consistent socket_change_consistent
        heartbeat_def fold_heartbeat_consistent broadcastMetadataUpdate_def
        broadcast_loop_consistent close_all_def split: option.splits)

lemma manager_init_consistent: "consistent manager_init"
  by (simp add: consistent_def manager_init_def subscribers_of_def subscriptions_of_def live_subscribers_def)

lemma reachable_consistent: "reachable cfg st \<Longrightarrow> consistent st"
  by (induction rule: reachable.induct) (simp_all add: manager_init_consistent step_consistent)

lemma sendToClient_wire:
  "wire (sendToClient st c m) = wire st @ (if deliverable st c then [(c, Send m)] else [])"
  by (simp add: sendToClient_def deliverable_def handleDisconnection_wire split: option.splits)

lemma sendToClient_clients:
  "map_of (clients (sendToClient st c m)) =
     (if failing st c then (map_of (clients st))(c := None) else map_of (clients st))"
  by (auto simp: sendToClient_def failing_def handleDisconnection_clients split: option.splits)

lemma subscribers_of_wire [simp]: "subscribers_of (st\<lparr>wire := w\<rparr>) r = subscribers_of st r"
  by (simp add: subscribers_of_def live_subscribers_def)

lemma sendToClient_subscribers:
  "consistent st \<Longrightarrow>
   subscribers_of (sendToClient st c m) r =
     (if failing st c then subscribers_of st r - {c} else subscribers_of st r)"
  by (simp add: sendToClient_def failing_def handleDisconnection_subscribers
        subscribers_of_wire split: option.splits)

lemma deliverable_cong:
  "map_of (clients st') c = map_of (clients st) c \<Longrightarrow> deliverable st' c = deliverable st c"
  by (simp add: deliverable_def)

lemma failing_cong:
  "map_of (clients st') c = map_of (clients st) c \<Longrightarrow> failing st' c = failing st c"
  by (simp add: failing_def)

lemma broadcast_loop_char:
  assumes "consistent st" and "distinct cs" and "set cs \<subseteq> subscribers_of st (u_resourceId u)"
  shows "wire (broadcast_loop st u cs) =
           wire st @ map (\<lambda>c. (c, Send (UpdateMsg u))) (filter (deliverable st) cs)
       \<and> (\<forall>x. map_of (clients (broadcast_loop st u cs)) x =
               (if x \<in> set cs \<and> failing st x then None else map_of (clients st) x))
       \<and> (\<forall>r x. x \<in> subscribers_of (broadcast_loop st u cs) r \<longleftrightarrow>
               x \<in> subscribers_of st r \<and> \<not> (x \<in> set cs \<and> failing st x))"
  using assms
proof (induction st u cs rule: broadcast_loop.induct)
  case (1 st update)
  then show ?case by simp
next
  case (2 st update c rest)
  define st' where "st' = sendToClient st c (UpdateMsg update)"
  define rest' where "rest' = filter (\<lambda>x. x \<in> set (live_subscribers st' (u_resourceId update))) rest"
  have cons': "consistent st'"
    using "2.prems"(1) by (simp add: st'_def sendToClient_consistent)
  have c_notin: "c \<notin> set rest" and drest: "distinct rest"
    using "2.prems"(2) by simp_all
  have sub': "subscribers_of st' r = (if failing st c then subscribers_of st r - {c} else subscribers_of st r)" for r
    unfolding st'_def using "2.prems"(1) by (rule sendToClient_subscribers)
  have sub_rest: "set rest \<subseteq> subscribers_of st' (u_resourceId update)"
    using "2.prems"(3) c_notin by (auto simp: sub')
  then have "\<forall>x \<in> set rest. x \<in> set (live_subscribers st' (u_resourceId update))"
    by (auto simp: subscribers_of_def)
  then have rest': "rest' = rest"
    by (simp add: rest'_def)
  have cl': "map_of (clients st') x = (if x = c \<and> failing st c then None else map_of (clients st) x)" for x
    by (simp add: st'_def sendToClient_clients)
  have same: "x \<in> set rest \<Longrightarrow> map_of (clients st') x = map_of (clients st) x" for x
    using c_notin by (auto simp: cl')
  have del: "filter (deliverable st') rest = filter (deliverable st) rest"
    by (rule filter_cong [OF refl]) (rule deliverable_cong, rule same)
  have fl: "x \<in> set rest \<Longrightarrow> failing st' x = failing st x" for x
    by (rule failing_cong) (rule same)
  have IH: "wire (broadcast_loop st' update rest) =
           wire st' @ map (\<lambda>c. (c, Send (UpdateMsg update))) (filter (deliverable st') rest)
       \<and> (\<forall>x. map_of (clients (broadcast_loop st' update rest)) x =
               (if x \<in> set rest \<and> failing st' x then None else map_of (clients st') x))
       \<and> (\<forall>r x. x \<in> subscribers_of (broadcast_loop st' update rest) r \<longleftrightarrow>
               x \<in> subscribers_of st' r \<and> \<not> (x \<in> set rest \<and> failing st' x))"
    using "2.IH" [OF st'_def, folded rest'_def, unfolded rest', OF cons' drest sub_rest] .
  have loop: "broadcast_loop st update (c # rest) = broadcast_loop st' update rest"
    by (simp add: Let_def st'_def [symmetric] rest'_def [symmetric] rest')
  have w: "wire st' = wire st @ (if deliverable st c then [(c, Send (UpdateMsg update))] else [])"
    by (simp add: st'_def sendToClient_wire)
  show ?case
    unfolding loop
  proof (intro conjI allI)
    show "wire (broadcast_loop st' update rest) =
            wire st @ map (\<lambda>c. (c, Send (UpdateMsg update))) (filter (deliverable st) (c # rest))"
      using IH by (simp add: del w)
  next
    fix x
    show "map_of (clients (broadcast_loop st' update rest)) x =
            (if x \<in> set (c # rest) \<and> failing st x then None else map_of (clients st) x)"
      using IH fl [of x] by (auto simp: cl')
  next
    fix r x
    show "x \<in> subscribers_of (broadcast_loop st' update rest) r \<longleftrightarrow>
            x \<in> subscribers_of st r \<and> \<not> (x \<in> set (c # rest) \<and> failing st x)"
      using IH fl [of x] by (auto simp: sub')
  qed
qed

lemma reachable_foldl:
  "reachable cfg st \<Longrightarrow> admissible_all cfg st evs \<Longrightarrow> reachable cfg (foldl (step cfg) st evs)"
  by (induction evs arbitrary: st) (auto intro: reachable_step)

lemmas server_defs = manager_init_def handleConnection_def handleMessage_def handleSubscription_def
  handleUnsubscription_def handleDisconnection_def sendToClient_def socket_change_def unindex_def
  set_add_def set_delete_def Let_def

lemma demo_eq:
  "demo = \<lparr>clients =
    [(''a'', \<lparr>c_id = ''a'', c_ws = \<lparr>readyState = OPEN, sendThrows = False\<rparr>,
         c_subscriptions = [''r''], lastSeen = 5\<rparr>),
     (''b'', \<lparr>c_id = ''b'', c_ws = \<lparr>readyState = OPEN, sendThrows = True\<rparr>,
         c_subscriptions = [''r'', ''q''], lastSeen = 9\<rparr>),
     (''c'', \<lparr>c_id = ''c'', c_ws = \<lparr>readyState = OPEN, sendThrows = False\<rparr>,
         c_subscriptions = [''r''], lastSeen = 7\<rparr>),
     (''d'', \<lparr>c_id = ''d'', c_ws = \<lparr>readyState = CLOSING, sendThrows = False\<rparr>,
         c_subscriptions = [''r''], lastSeen = 8\<rparr>)],
    m_subscriptions = [(''r'', [''a'', ''b'', ''c'', ''d'']), (''q'', [''b''])],
    wire =
      [(''a'', Send (ConnectedMsg ''a'' 1)),
       (''b'', Send (ConnectedMsg ''b'' 2)),
       (''c'', Send (ConnectedMsg ''c'' 3)),
       (''d'', Send (ConnectedMsg ''d'' 4)),
       (''a'', Send (SubscribedMsg ''r'' 5)),
       (''b'', Send (SubscribedMsg ''r'' 6)),
       (''c'', Send (SubscribedMsg ''r'' 7)),
       (''d'', Send (SubscribedMsg ''r'' 8)),
       (''b'', Send (SubscribedMsg ''q'' 9))]\<rparr>"
  by (simp add: demo_def demo_events_def demo_cfg_def server_defs)

lemma index_pairs_iff:
  "distinct (map fst (m_subscriptions st)) \<Longrightarrow> (r, c) \<in> index_pairs st \<longleftrightarrow> c \<in> subscribers_of st r"
  by (auto simp: index_pairs_def subscribers_of_def live_subscribers_def split: option.splits)

lemma registry_pairs_iff:
  "distinct (map fst (clients st)) \<Longrightarrow> (r, c) \<in> registry_pairs st \<longleftrightarrow> r \<in> subscriptions_of st c"
proof -
  assume d: "distinct (map fst (clients st))"
  have "(r, c) \<in> registry_pairs st \<longleftrightarrow>
          (\<exists>client. (c, client) \<in> set (clients st) \<and> r \<in> set (c_subscriptions client))"
    by (auto simp: registry_pairs_def)
  also have "\<dots> \<longleftrightarrow> (\<exists>client. map_of (clients st) c = Some client \<and> r \<in> set (c_subscriptions client))"
    using d by simp
  also have "\<dots> \<longleftrightarrow> r \<in> subscriptions_of st c"
    by (simp add: subscriptions_of_def split: option.splits)
  finally show ?thesis .
qed

lemma consistent_pairs: "consistent st \<Longrightarrow> index_pairs st = registry_pairs st"
proof -
  assume a: "consistent st"
  then have "(r, c) \<in> index_pairs st \<longleftrightarrow> (r, c) \<in> registry_pairs st" for r c
    by (simp add: index_pairs_iff registry_pairs_iff consistent_def)
  then show ?thesis by auto
qed

lemma consistent_no_empty:
  assumes "consistent st" and "(r, s) \<in> set (m_subscriptions st)"
  shows "s \<noteq> []"
proof -
  from assms have "map_of (m_subscriptions st) r = Some s"
    by (simp add: consistent_def)
  with assms(1) show ?thesis by (simp add: consistent_def)
qed

lemma consistent_nonempty:
  "consistent st \<Longrightarrow> map_of (m_subscriptions st) r = Some s \<Longrightarrow> s \<noteq> []"
  by (simp add: consistent_def)

lemma purge_only:
  "members e \<subseteq> {c} \<Longrightarrow> purge c e = None"
  by (auto simp: purge_def members_def removeAll_Nil_iff split: option.splits)

lemma handleUnsubscription_gc:
  assumes "consistent st" and "subscribers_of st r \<subseteq> {c}"
  shows "map_of (m_subscriptions (handleUnsubscription st now c r)) r = None"
proof (cases "map_of (clients st) c")
  case None
  with assms(1) have "c \<notin> subscribers_of st r"
    by (simp add: consistent_def subscriptions_of_def)
  with assms(2) have "members (map_of (m_subscriptions st) r) = {}"
    by (auto simp: subscribers_of_members)
  with consistent_nonempty [OF assms(1), of r] have "map_of (m_subscriptions st) r = None"
    by (cases "map_of (m_subscriptions st) r") (auto simp: members_def)
  with None show ?thesis by (simp add: handleUnsubscription_def)
next
  case (Some cl)
  define st1 where "st1 = st\<lparr>clients := AList.update c (cl\<lparr>c_subscriptions := set_delete r (c_subscriptions cl)\<rparr>) (clients st),
                        m_subscriptions := unindex c r (m_subscriptions st)\<rparr>"
  have eq: "handleUnsubscription st now c r = sendToClient st1 c (UnsubscribedMsg r now)"
    using Some by (simp add: handleUnsubscription_def Let_def st1_def)
  have "consistent (handleUnsubscription st now c r)"
    using assms(1) by (rule handleUnsubscription_consistent)
  have none: "map_of (m_subscriptions st1) r = None"
    using assms(2) by (simp add: st1_def map_of_unindex purge_only subscribers_of_members)
  have "map_of (m_subscriptions (sendToClient st1 c m)) r = None" for m
    using sendToClient_cases [of st1 c m] none
    by (auto simp: handleDisconnection_def map_of_fold_unindex purge_def split: option.splits)
  then show ?thesis by (simp add: eq)
qed

text \<open>
  Claim C2. In every reachable state of the server the subscription index and the client
  registry describe the same set of (resourceId, clientId) pairs, and no entry of the
  index holds an empty Set. \<^verbatim>\<open>handleDisconnection\<close> removes the connection from the
  registry and from every entry of the index in one step, and an entry whose only
  subscriber goes away, by disconnect or by unsubscribe, leaves the index.
\<close>
theorem subscription_index_is_union_of_registry:
  assumes "reachable cfg st"
  shows "index_pairs st = registry_pairs st
       \<and> (\<forall>(r, s) \<in> set (m_subscriptions st). s \<noteq> [])
       \<and> map_of (clients (handleDisconnection st c)) c = None
       \<and> (\<forall>r. c \<notin> subscribers_of (handleDisconnection st c) r)
       \<and> (subscribers_of st r \<subseteq> {c} \<longrightarrow>
            map_of (m_subscriptions (handleDisconnection st c)) r = None)
       \<and> (subscribers_of st r \<subseteq> {c} \<longrightarrow>
            map_of (m_subscriptions (handleUnsubscription st now c r)) r = None)"
proof -
  from assms have cons: "consistent st" by (rule reachable_consistent)
  have 1: "index_pairs st = registry_pairs st"
    using cons by (rule consistent_pairs)
  have 2: "\<forall>(r, s) \<in> set (m_subscriptions st). s \<noteq> []"
    using consistent_no_empty [OF cons] by auto
  have 3: "map_of (clients (handleDisconnection st c)) c = None"
    by (simp add: handleDisconnection_clients)
  have 4: "\<forall>r. c \<notin> subscribers_of (handleDisconnection st c) r"
    by (simp add: handleDisconnection_subscribers [OF cons])
  have 5: "subscribers_of st r \<subseteq> {c} \<longrightarrow> map_of (m_subscriptions (handleDisconnection st c)) r = None"
    by (simp add: handleDisconnection_index [OF cons] purge_only subscribers_of_members)
  have 6: "subscribers_of st r \<subseteq> {c} \<longrightarrow> map_of (m_subscriptions (handleUnsubscription st now c r)) r = None"
    using handleUnsubscription_gc [OF cons] by simp
  from 1 2 3 4 5 6 show ?thesis by blast
qed

lemma demo_reachable: "reachable demo_cfg demo"
  unfolding demo_def
  by (rule reachable_foldl [OF reachable_init])
     (simp add: demo_events_def demo_cfg_def server_defs)

theorem subscription_index_is_union_of_registry_witness:
  "reachable demo_cfg demo
   \<and> index_pairs demo = {(''r'', ''a''), (''r'', ''b''), (''r'', ''c''), (''r'', ''d''), (''q'', ''b'')}
   \<and> registry_pairs demo = {(''r'', ''a''), (''r'', ''b''), (''r'', ''c''), (''r'', ''d''), (''q'', ''b'')}
   \<and> subscribers_of demo ''q'' \<subseteq> {''b''}
   \<and> map_of (m_subscriptions (handleDisconnection demo ''b'')) ''q'' = None
   \<and> map_of (m_subscriptions (handleUnsubscription demo 10 ''b'' ''q'')) ''q'' = None
   \<and> (\<forall>r. ''b'' \<notin> subscribers_of (handleDisconnection demo ''b'') r)"
proof -
  have sub: "subscribers_of demo ''q'' \<subseteq> {''b''}"
    by (simp add: demo_eq subscribers_of_def live_subscribers_def)
  have ip: "index_pairs demo = {(''r'', ''a''), (''r'', ''b''), (''r'', ''c''), (''r'', ''d''), (''q'', ''b'')}"
    by (auto simp: demo_eq index_pairs_def)
  note T = subscription_index_is_union_of_registry [OF demo_reachable, of "''b''" "''q''" 10]
  from T have eq: "index_pairs demo = registry_pairs demo" by blast
  from T sub have d: "map_of (m_subscriptions (handleDisconnection demo ''b'')) ''q'' = None" by blast
  from T sub have u: "map_of (m_subscriptions (handleUnsubscription demo 10 ''b'' ''q'')) ''q'' = None" by blast
  from T have a: "\<forall>r. ''b'' \<notin> subscribers_of (handleDisconnection demo ''b'') r" by blast
  from eq ip have rp: "registry_pairs demo = {(''r'', ''a''), (''r'', ''b''), (''r'', ''c''), (''r'', ''d''), (''q'', ''b'')}"
    by simp
  from demo_reachable ip rp sub d u a show ?thesis by blast
qed

lemma broadcastMetadataUpdate_char:
  assumes "consistent st"
  shows "wire (broadcastMetadataUpdate st u) =
           wire st @ map (\<lambda>c. (c, Send (UpdateMsg u)))
                      (filter (deliverable st) (live_subscribers st (u_resourceId u)))
       \<and> (\<forall>x. map_of (clients (broadcastMetadataUpdate st u)) x =
               (if x \<in> subscribers_of st (u_resourceId u) \<and> failing st x then None
                else map_of (clients st) x))
       \<and> (\<forall>r x. x \<in> subscribers_of (broadcastMetadataUpdate st u) r \<longleftrightarrow>
               x \<in> subscribers_of st r \<and> \<not> (x \<in> subscribers_of st (u_resourceId u) \<and> failing st x))"
proof (cases "map_of (m_subscriptions st) (u_resourceId u)")
  case None
  then show ?thesis
    by (simp add: broadcastMetadataUpdate_def live_subscribers_def subscribers_of_def)
next
  case (Some subs)
  with assms have d: "distinct subs" by (simp add: consistent_def)
  from Some have l: "live_subscribers st (u_resourceId u) = subs"
    by (simp add: live_subscribers_def)
  then have s: "set subs \<subseteq> subscribers_of st (u_resourceId u)"
    by (simp add: subscribers_of_def)
  have b: "broadcastMetadataUpdate st u = broadcast_loop st u subs"
    using Some by (cases subs) (simp_all add: broadcastMetadataUpdate_def)
  show ?thesis
    using broadcast_loop_char [OF assms d s] by (simp add: b l subscribers_of_def)
qed

text \<open>
  Claim C3. A publish writes the update, in the order of the index entry, to every
  subscriber whose socket is OPEN and whose send does not throw. A subscriber whose
  send throws is removed from the client registry and from every entry of the
  subscription index; every other connection keeps its registry record and its index
  entries: the failure of one send neither ends the loop nor touches the others.
\<close>
theorem broadcast_failure_disconnects_only_the_failing_connection:
  assumes "reachable cfg st"
  shows "wire (broadcastMetadataUpdate st u) =
           wire st @ map (\<lambda>c. (c, Send (UpdateMsg u)))
                      (filter (deliverable st) (live_subscribers st (u_resourceId u)))
       \<and> (\<forall>c. c \<in> subscribers_of st (u_resourceId u) \<and> failing st c \<longrightarrow>
               map_of (clients (broadcastMetadataUpdate st u)) c = None
             \<and> (\<forall>r. c \<notin> subscribers_of (broadcastMetadataUpdate st u) r))
       \<and> (\<forall>c. \<not> (c \<in> subscribers_of st (u_resourceId u) \<and> failing st c) \<longrightarrow>
               map_of (clients (broadcastMetadataUpdate st u)) c = map_of (clients st) c
             \<and> (\<forall>r. c \<in> subscribers_of (broadcastMetadataUpdate st u) r \<longleftrightarrow> c \<in> subscribers_of st r))"
proof -
  from assms have "consistent st" by (rule reachable_consistent)
  from broadcastMetadataUpdate_char [OF this, of u] show ?thesis by simp
qed

lemma demo_live: "live_subscribers demo ''r'' = [''a'', ''b'', ''c'', ''d'']"
  by (simp add: demo_eq live_subscribers_def)

lemma demo_deliverable:
  "filter (deliverable demo) [''a'', ''b'', ''c'', ''d''] = [''a'', ''c'']"
  by (simp add: demo_eq deliverable_def)

lemma demo_failing: "failing demo ''b''" "\<not> failing demo ''a''" "\<not> failing demo ''c''" "\<not> failing demo ''d''"
  by (simp_all add: demo_eq failing_def)

theorem broadcast_failure_disconnects_only_the_failing_connection_witness:
  "reachable demo_cfg demo
   \<and> ''b'' \<in> subscribers_of demo (u_resourceId demo_update) \<and> failing demo ''b''
   \<and> \<not> (''c'' \<in> subscribers_of demo (u_resourceId demo_update) \<and> failing demo ''c'')
   \<and> wire (broadcastMetadataUpdate demo demo_update) =
        wire demo @ [(''a'', Send (UpdateMsg demo_update)), (''c'', Send (UpdateMsg demo_update))]
   \<and> map_of (clients (broadcastMetadataUpdate demo demo_update)) ''b'' = None
   \<and> (\<forall>r. ''b'' \<notin> subscribers_of (broadcastMetadataUpdate demo demo_update) r)
   \<and> map_of (clients (broadcastMetadataUpdate demo demo_update)) ''c'' = map_of (clients demo) ''c''"
proof -
  have r: "u_resourceId demo_update = ''r''" by (simp add: demo_update_def)
  have sb: "''b'' \<in> subscribers_of demo (u_resourceId demo_update)"
    by (simp add: r subscribers_of_def demo_live)
  note T = broadcast_failure_disconnects_only_the_failing_connection [OF demo_reachable, of demo_update]
  from T have w0: "wire (broadcastMetadataUpdate demo demo_update) =
        wire demo @ map (\<lambda>c. (c, Send (UpdateMsg demo_update)))
                      (filter (deliverable demo) (live_subscribers demo (u_resourceId demo_update)))"
    by blast
  have w: "wire (broadcastMetadataUpdate demo demo_update) =
        wire demo @ [(''a'', Send (UpdateMsg demo_update)), (''c'', Send (UpdateMsg demo_update))]"
    unfolding w0 r demo_live demo_deliverable by simp
  from T sb demo_failing(1) have b: "map_of (clients (broadcastMetadataUpdate demo demo_update)) ''b'' = None
             \<and> (\<forall>r. ''b'' \<notin> subscribers_of (broadcastMetadataUpdate demo demo_update) r)"
    by blast
  from T demo_failing(3) have c: "map_of (clients (broadcastMetadataUpdate demo demo_update)) ''c'' = map_of (clients demo) ''c''"
    by blast
  from demo_reachable sb demo_failing w b c show ?thesis by blast
qed

lemma not_open_not_deliverable: "not_open st c \<Longrightarrow> \<not> deliverable st c \<and> \<not> failing st c"
  by (auto simp: not_open_def deliverable_def failing_def split: option.splits)

text \<open>
  Claim C10. \<^verbatim>\<open>sendToClient\<close> for a client id that is not registered, or whose socket is
  not OPEN, returns the state as it was: nothing is written and nothing is cleaned up.
  So a publish leaves a subscriber that is not OPEN in the registry and in the index
  and writes nothing to it, and a publish to subscribers none of which is OPEN changes
  nothing at all.
\<close>
theorem sendToClient_not_open_is_noop:
  "(not_open st c \<longrightarrow> sendToClient st c m = st)
   \<and> (reachable cfg st \<and> not_open st c \<longrightarrow>
        map_of (clients (broadcastMetadataUpdate st u)) c = map_of (clients st) c
      \<and> (\<forall>r. c \<in> subscribers_of (broadcastMetadataUpdate st u) r \<longleftrightarrow> c \<in> subscribers_of st r)
      \<and> filter (\<lambda>e. fst e = c) (wire (broadcastMetadataUpdate st u)) = filter (\<lambda>e. fst e = c) (wire st))
   \<and> ((\<forall>x \<in> subscribers_of st (u_resourceId u). not_open st x) \<longrightarrow> broadcastMetadataUpdate st u = st)"
proof (intro conjI impI)
  assume "not_open st c"
  then show "sendToClient st c m = st"
    by (auto simp: not_open_def sendToClient_def split: option.splits)
next
  assume a: "reachable cfg st \<and> not_open st c"
  then have cons: "consistent st" by (blast intro: reachable_consistent)
  from a have nd: "\<not> deliverable st c" "\<not> failing st c"
    by (simp_all add: not_open_not_deliverable)
  note T = broadcastMetadataUpdate_char [OF cons, of u]
  from T nd show "map_of (clients (broadcastMetadataUpdate st u)) c = map_of (clients st) c"
    by simp
  from T nd show "\<forall>r. c \<in> subscribers_of (broadcastMetadataUpdate st u) r \<longleftrightarrow> c \<in> subscribers_of st r"
    by simp
  have "filter (\<lambda>e. fst e = c) (map (\<lambda>x. (x, Send (UpdateMsg u))) (filter (deliverable st) xs)) = []" for xs
    using nd(1) by (induction xs) auto
  with T show "filter (\<lambda>e. fst e = c) (wire (broadcastMetadataUpdate st u)) = filter (\<lambda>e. fst e = c) (wire st)"
    by simp
next
  assume a: "\<forall>x \<in> subscribers_of st (u_resourceId u). not_open st x"
  have loop: "set cs \<subseteq> set (live_subscribers st (u_resourceId u)) \<Longrightarrow> broadcast_loop st u cs = st" for cs
  proof (induction cs)
    case Nil
    then show ?case by simp
  next
    case (Cons x cs)
    then have "not_open st x" using a by (simp add: subscribers_of_def)
    then have s: "sendToClient st x (UpdateMsg u) = st"
      by (auto simp: not_open_def sendToClient_def split: option.splits)
    from Cons.prems have "filter (\<lambda>c. c \<in> set (live_subscribers st (u_resourceId u))) cs = cs"
      by (auto simp: filter_id_conv)
    with Cons s show ?case by simp
  qed
  show "broadcastMetadataUpdate st u = st"
    by (simp add: broadcastMetadataUpdate_def loop live_subscribers_def split: option.splits)
qed

theorem sendToClient_not_open_is_noop_witness:
  "not_open demo ''d'' \<and> not_open demo ''zz'' \<and> reachable demo_cfg demo
   \<and> sendToClient demo ''d'' PongMsg = demo
   \<and> sendToClient demo ''zz'' PongMsg = demo
   \<and> map_of (clients (broadcastMetadataUpdate demo demo_update)) ''d'' = map_of (clients demo) ''d''
   \<and> ''d'' \<in> subscribers_of (broadcastMetadataUpdate demo demo_update) ''r''
   \<and> subscribers_of demo ''nobody'' = {}
   \<and> broadcastMetadataUpdate demo (demo_update\<lparr>u_resourceId := ''nobody''\<rparr>) = demo"
proof -
  have d: "not_open demo ''d''" and z: "not_open demo ''zz''"
    by (simp_all add: demo_eq not_open_def)
  have n: "\<forall>x \<in> subscribers_of demo (u_resourceId (demo_update\<lparr>u_resourceId := ''nobody''\<rparr>)). not_open demo x"
    by (simp add: demo_eq subscribers_of_def live_subscribers_def)
  have m: "''d'' \<in> subscribers_of demo ''r''"
    by (simp add: subscribers_of_def demo_live)
  note T1 = sendToClient_not_open_is_noop [of demo "''d''" PongMsg demo_cfg demo_update]
  note T2 = sendToClient_not_open_is_noop [of demo "''zz''" PongMsg demo_cfg "demo_update\<lparr>u_resourceId := ''nobody''\<rparr>"]
  from T1 d have 1: "sendToClient demo ''d'' PongMsg = demo" by blast
  from T2 z have 2: "sendToClient demo ''zz'' PongMsg = demo" by blast
  from T1 d demo_reachable have 3: "map_of (clients (broadcastMetadataUpdate demo demo_update)) ''d'' = map_of (clients demo) ''d''"
    by blast
  from T1 d demo_reachable m have 4: "''d'' \<in> subscribers_of (broadcastMetadataUpdate demo demo_update) ''r''"
    by blast
  from T2 n have 5: "broadcastMetadataUpdate demo (demo_update\<lparr>u_resourceId := ''nobody''\<rparr>) = demo"
    by blast
  have n': "subscribers_of demo ''nobody'' = {}"
    by (simp add: demo_eq subscribers_of_def live_subscribers_def)
  from d z demo_reachable 1 2 3 4 n' 5 show ?thesis by blast
qed

lemma sendToClient_self:
  "map_of (clients st) c = Some cl \<Longrightarrow>
   map_of (clients (sendToClient st c m)) c = (if failing st c then None else Some cl)"
  by (simp add: sendToClient_clients)

lemma handleSubscription_self:
  assumes "map_of (clients st) c = Some cl"
  shows "map_of (clients (handleSubscription st now c r)) c =
           (if failing st c then None
            else Some (cl\<lparr>c_subscriptions := set_add r (c_subscriptions cl)\<rparr>))"
  using assms
  by (simp add: handleSubscription_def Let_def sendToClient_clients failing_def update_conv')

lemma handleUnsubscription_self:
  assumes "map_of (clients st) c = Some cl"
  shows "map_of (clients (handleUnsubscription st now c r)) c =
           (if failing st c then None
            else Some (cl\<lparr>c_subscriptions := set_delete r (c_subscriptions cl)\<rparr>))"
  using assms
  by (simp add: handleUnsubscription_def Let_def sendToClient_clients failing_def update_conv')

lemma handleMessage_self:
  assumes "map_of (clients st) c = Some cl"
  shows "map_of (clients (handleMessage st now c d)) c = None \<and> failing st c
       \<or> (\<exists>cl'. map_of (clients (handleMessage st now c d)) c = Some cl' \<and> lastSeen cl' = now
             \<and> \<not> failing st c)"
proof -
  define st1 where "st1 = st\<lparr>clients := AList.update c (cl\<lparr>lastSeen := now\<rparr>) (clients st)\<rparr>"
  have c1: "map_of (clients st1) c = Some (cl\<lparr>lastSeen := now\<rparr>)"
    by (simp add: st1_def update_conv')
  have f1: "failing st1 c = failing st c"
    using assms by (simp add: failing_def c1)
  have hm: "handleMessage st now c d =
     (case d of
                Malformed \<Rightarrow> sendToClient st1 c (ErrorMsg ''Invalid message format'')
              | Json t resourceId \<Rightarrow>
                  if t = Some ''ping'' then sendToClient st1 c PongMsg
                  else if t = Some ''subscribe'' then handleSubscription st1 now c resourceId
                  else if t = Some ''unsubscribe'' then handleUnsubscription st1 now c resourceId
                  else sendToClient st1 c
                         (ErrorMsg (''Unknown message type: '' @ type_text t)))"
    using assms unfolding handleMessage_def st1_def Let_def by simp
  show ?thesis
    unfolding hm
    by (cases d)
       (simp_all add: sendToClient_self [OF c1] handleSubscription_self [OF c1]
          handleUnsubscription_self [OF c1] f1)
qed

text \<open>
  Claim C9. Whatever a registered connection sends (a ping, a subscribe, an
  unsubscribe, an unknown type, data that does not parse), \<^verbatim>\<open>handleMessage\<close> first sets
  its \<^verbatim>\<open>lastSeen\<close> to the current time: a connection that is still registered after
  the handler has \<^verbatim>\<open>lastSeen = now\<close>, and it is still registered unless the reply was
  sent on an OPEN socket and the send threw.
\<close>
theorem handleMessage_refreshes_lastSeen:
  assumes "map_of (clients st) clientId = Some client"
  shows "(\<forall>client'. map_of (clients (handleMessage st now clientId data)) clientId = Some client'
            \<longrightarrow> lastSeen client' = now)
       \<and> (\<not> failing st clientId \<longrightarrow>
            (\<exists>client'. map_of (clients (handleMessage st now clientId data)) clientId = Some client'
               \<and> lastSeen client' = now))"
  using handleMessage_self [OF assms, of now data] by auto

theorem handleMessage_refreshes_lastSeen_witness:
  "map_of (clients demo) ''a'' =
     Some \<lparr>c_id = ''a'', c_ws = \<lparr>readyState = OPEN, sendThrows = False\<rparr>,
           c_subscriptions = [''r''], lastSeen = 5\<rparr>
   \<and> \<not> failing demo ''a''
   \<and> (\<exists>client'. map_of (clients (handleMessage demo 77 ''a'' Malformed)) ''a'' = Some client'
               \<and> lastSeen client' = 77)
   \<and> (\<exists>client'. map_of (clients (handleMessage demo 78 ''a'' (Json (Some ''bogus'') ''r''))) ''a'' = Some client'
               \<and> lastSeen client' = 78)"
proof -
  have a: "map_of (clients demo) ''a'' =
     Some \<lparr>c_id = ''a'', c_ws = \<lparr>readyState = OPEN, sendThrows = False\<rparr>,
           c_subscriptions = [''r''], lastSeen = 5\<rparr>"
    by (simp add: demo_eq)
  from handleMessage_refreshes_lastSeen [OF a, of 77 Malformed]
       handleMessage_refreshes_lastSeen [OF a, of 78 "Json (Some ''bogus'') ''r''"]
       a demo_failing(2)
  show ?thesis by blast
qed

section \<open>The transport: entering OPEN\<close>

declare flushMessageQueue.simps [simp del]

lemma flush_idle: "messageQueue t = [] \<or> \<not> isConnected t \<Longrightarrow> flushMessageQueue t = t"
  by (subst flushMessageQueue.simps) auto

lemma flush_ok:
  "isConnected t \<Longrightarrow> messageQueue t = m # q \<Longrightarrow> ws_send (t\<lparr>messageQueue := q\<rparr>) m = Inr t'
   \<Longrightarrow> flushMessageQueue t = flushMessageQueue t'"
  by (subst flushMessageQueue.simps) simp

lemma flush_fail:
  "isConnected t \<Longrightarrow> messageQueue t = m # q \<Longrightarrow> ws_send (t\<lparr>messageQueue := q\<rparr>) m = Inl t'
   \<Longrightarrow> flushMessageQueue t = t'\<lparr>messageQueue := m # messageQueue t'\<rparr>"
  by (subst flushMessageQueue.simps) simp

lemma flushMessageQueue_char:
  assumes "isConnected t" and "messageQueue t = q"
  shows "messageQueue (flushMessageQueue t) = drop (flushed (send_script t) q) q
       \<and> frames (flushMessageQueue t) = frames t @ map Data (take (flushed (send_script t) q) q)
       \<and> same_control t (flushMessageQueue t)"
  using assms
proof (induction q arbitrary: t)
  case Nil
  then show ?case by (simp add: flush_idle same_control_def)
next
  case (Cons m q)
  show ?case
  proof (cases "send_script t")
    case Nil
    define t' where "t' = t\<lparr>messageQueue := q, frames := frames t @ [Data m]\<rparr>"
    have s: "ws_send (t\<lparr>messageQueue := q\<rparr>) m = Inr t'"
      using Nil by (simp add: ws_send_def t'_def)
    have f: "flushMessageQueue t = flushMessageQueue t'"
      using Cons.prems s by (rule flush_ok)
    have c: "isConnected t'" "messageQueue t' = q" "send_script t' = []"
      using Cons.prems(1) Nil by (simp_all add: t'_def isConnected_def)
    have fl: "flushed [] q = length q" by (cases q) simp_all
    from Cons.IH [OF c(1,2)] show ?thesis
      using Nil by (simp add: f c(3) fl t'_def same_control_def)
  next
    case (Cons b bs)
    note script = this
    show ?thesis
    proof (cases b)
      case True
      define t' where "t' = t\<lparr>messageQueue := q, send_script := bs\<rparr>"
      have s: "ws_send (t\<lparr>messageQueue := q\<rparr>) m = Inl t'"
        using script True by (simp add: ws_send_def t'_def)
      have f: "flushMessageQueue t = t'\<lparr>messageQueue := m # messageQueue t'\<rparr>"
        using Cons.prems s by (rule flush_fail)
      show ?thesis
        using script True by (simp add: f t'_def same_control_def)
    next
      case False
      define t' where "t' = t\<lparr>messageQueue := q, frames := frames t @ [Data m], send_script := bs\<rparr>"
      have s: "ws_send (t\<lparr>messageQueue := q\<rparr>) m = Inr t'"
        using script False by (simp add: ws_send_def t'_def)
      have f: "flushMessageQueue t = flushMessageQueue t'"
        using Cons.prems s by (rule flush_ok)
      have c: "isConnected t'" "messageQueue t' = q" "send_script t' = bs"
        using Cons.prems(1) by (simp_all add: t'_def isConnected_def)
      from Cons.IH [OF c(1,2)] show ?thesis
        using script False by (simp add: f c(3) t'_def same_control_def)
    qed
  qed
qed

lemma flushed_all: "True \<notin> set script \<Longrightarrow> flushed script q = length q"
  by (induction script q rule: flushed.induct) auto

lemma flushed_first_failure:
  "j < length q \<Longrightarrow> j < length script \<Longrightarrow> script ! j \<Longrightarrow> True \<notin> set (take j script)
   \<Longrightarrow> flushed script q = j"
proof (induction script q arbitrary: j rule: flushed.induct)
  case (1 script)
  then show ?case by simp
next
  case (2 m q)
  then show ?case by simp
next
  case (3 throws script m q)
  show ?case
  proof (cases j)
    case 0
    with 3 show ?thesis by simp
  next
    case (Suc j')
    with 3 show ?thesis by auto
  qed
qed

lemma on_open_char:
  assumes "t_ws t = Some OPEN"
  shows "reconnectAttempts (on_open t) = 0 \<and> isReconnecting (on_open t) = False
       \<and> t_heartbeatInterval (on_open t) = Some (next_timer t)
       \<and> timers (on_open t) = timers t @ [(next_timer t, HeartbeatTick)]
       \<and> frames (on_open t) =
           frames t @ map Data (take (flushed (send_script t) (messageQueue t)) (messageQueue t))
       \<and> messageQueue (on_open t) = drop (flushed (send_script t) (messageQueue t)) (messageQueue t)
       \<and> emitted (on_open t) = emitted t @ [Connected]"
proof -
  define t1 where "t1 = startHeartbeat (t\<lparr>reconnectAttempts := 0, isReconnecting := False\<rparr>)"
  have c: "isConnected t1"
    using assms by (simp add: t1_def isConnected_def startHeartbeat_def set_timer_def)
  have f: "messageQueue t1 = messageQueue t" "send_script t1 = send_script t" "frames t1 = frames t"
     "reconnectAttempts t1 = 0" "isReconnecting t1 = False" "t_heartbeatInterval t1 = Some (next_timer t)"
     "timers t1 = timers t @ [(next_timer t, HeartbeatTick)]" "emitted t1 = emitted t"
    by (simp_all add: t1_def startHeartbeat_def set_timer_def)
  have o: "on_open t = emit Connected (flushMessageQueue t1)"
    by (simp add: on_open_def t1_def)
  from flushMessageQueue_char [OF c refl] show ?thesis
    by (simp add: o emit_def f same_control_def)
qed

text \<open>
  Claim C8. The handler of the \<^verbatim>\<open>open\<close> event sets the reconnect-attempt counter to 0,
  starts the heartbeat interval and writes the queued messages in the order of the
  queue. When a send throws, the flush ends: the message whose send threw is again the
  head of the queue, followed by the messages behind it in their order. When no send
  throws, the whole queue is written and the queue is empty.
\<close>
theorem on_open_resets_counter_and_flushes_fifo:
  assumes "t_ws t = Some OPEN"
  shows "reconnectAttempts (on_open t) = 0
       \<and> t_heartbeatInterval (on_open t) = Some (next_timer t)
       \<and> timers (on_open t) = timers t @ [(next_timer t, HeartbeatTick)]
       \<and> frames (on_open t) =
           frames t @ map Data (take (flushed (send_script t) (messageQueue t)) (messageQueue t))
       \<and> messageQueue (on_open t) = drop (flushed (send_script t) (messageQueue t)) (messageQueue t)
       \<and> (True \<notin> set (send_script t) \<longrightarrow>
            frames (on_open t) = frames t @ map Data (messageQueue t) \<and> messageQueue (on_open t) = [])
       \<and> (j < length (messageQueue t) \<and> j < length (send_script t) \<and> send_script t ! j
            \<and> True \<notin> set (take j (send_script t)) \<longrightarrow>
            frames (on_open t) = frames t @ map Data (take j (messageQueue t))
          \<and> messageQueue (on_open t) = drop j (messageQueue t))"
  using on_open_char [OF assms]
  by (auto simp: flushed_all flushed_first_failure)

theorem on_open_resets_counter_and_flushes_fifo_witness:
  "t_ws demo_transport = Some OPEN
   \<and> (1::nat) < length (messageQueue demo_transport) \<and> (1::nat) < length (send_script demo_transport)
   \<and> send_script demo_transport ! 1 \<and> True \<notin> set (take 1 (send_script demo_transport))
   \<and> reconnectAttempts (on_open demo_transport) = 0
   \<and> frames (on_open demo_transport) = [Data (ActionMsg ''subscribe'' ''a'')]
   \<and> messageQueue (on_open demo_transport) = [ActionMsg ''subscribe'' ''b'', ActionMsg ''unsubscribe'' ''a'']
   \<and> True \<notin> set (send_script (demo_transport\<lparr>send_script := []\<rparr>))
   \<and> messageQueue (on_open (demo_transport\<lparr>send_script := []\<rparr>)) = []"
proof -
  have o: "t_ws demo_transport = Some OPEN" "t_ws (demo_transport\<lparr>send_script := []\<rparr>) = Some OPEN"
    by (simp_all add: demo_transport_def transport_init_def)
  have h: "(1::nat) < length (messageQueue demo_transport)" "(1::nat) < length (send_script demo_transport)"
     "send_script demo_transport ! 1" "True \<notin> set (take 1 (send_script demo_transport))"
     "True \<notin> set (send_script (demo_transport\<lparr>send_script := []\<rparr>))"
    by (simp_all add: demo_transport_def transport_init_def)
  note T1 = on_open_resets_counter_and_flushes_fifo [OF o(1), of 1]
  note T2 = on_open_resets_counter_and_flushes_fifo [OF o(2), of 0]
  from T1 have a: "reconnectAttempts (on_open demo_transport) = 0" by blast
  from T1 h have "frames (on_open demo_transport) = frames demo_transport @ map Data (take 1 (messageQueue demo_transport))
          \<and> messageQueue (on_open demo_transport) = drop 1 (messageQueue demo_transport)"
    by blast
  then have b: "frames (on_open demo_transport) = [Data (ActionMsg ''subscribe'' ''a'')]"
    and c: "messageQueue (on_open demo_transport) = [ActionMsg ''subscribe'' ''b'', ActionMsg ''unsubscribe'' ''a'']"
    by (simp_all add: demo_transport_def transport_init_def)
  from T2 h(5) have d: "messageQueue (on_open (demo_transport\<lparr>send_script := []\<rparr>)) = []" by blast
  from o(1) h a b c d show ?thesis by blast
qed

section \<open>The provider's handles, and the dispatch of updates\<close>

lemma p_send_fields [simp]:
  "p_ws (p_send m p) = p_ws p" "subscriptionsRef (p_send m p) = subscriptionsRef p"
  "p_store (p_send m p) = p_store p" "p_next (p_send m p) = p_next p"
  by (simp_all add: p_send_def)

lemma p_send_sent:
  "p_sent (p_send m p) = (if p_ws p = Some OPEN then p_sent p @ [m] else p_sent p)"
  by (simp add: p_send_def)

lemma callbacks_at_p_send [simp]: "callbacks_at (p_send m p) a = callbacks_at p a"
  by (simp add: callbacks_at_def)

text \<open>Subscribing where the resourceId has an entry: only the Set object changes.\<close>

lemma p_subscribe_present:
  assumes "map_of (subscriptionsRef p) r = Some a"
  shows "p_subscribe r cb p =
           (p\<lparr>p_store := AList.update a (set_add cb (callbacks_at p a)) (p_store p)\<rparr>, Handle r a cb)"
  using assms by (simp add: p_subscribe_def)

lemma subscribe_all_present:
  assumes "map_of (subscriptionsRef p) r = Some a" and "subscribe_all r cbs p = (p', hs)"
  shows "hs = map (Handle r a) cbs \<and> p_sent p' = p_sent p \<and> p_ws p' = p_ws p
       \<and> subscriptionsRef p' = subscriptionsRef p
       \<and> callbacks_at p' a = fold set_add cbs (callbacks_at p a)"
  using assms
proof (induction cbs arbitrary: p p' hs)
  case Nil
  then show ?case by simp
next
  case (Cons cb cbs)
  define p1 where "p1 = p\<lparr>p_store := AList.update a (set_add cb (callbacks_at p a)) (p_store p)\<rparr>"
  obtain p2 hs2 where s2: "subscribe_all r cbs p1 = (p2, hs2)" by (cases "subscribe_all r cbs p1")
  have m1: "map_of (subscriptionsRef p1) r = Some a"
    using Cons.prems(1) by (simp add: p1_def)
  have c1: "callbacks_at p1 a = set_add cb (callbacks_at p a)"
    by (simp add: p1_def callbacks_at_def update_conv')
  from Cons.prems(2) have e: "p' = p2" "hs = Handle r a cb # hs2"
    by (simp_all add: p_subscribe_present [OF Cons.prems(1)] p1_def [symmetric] s2)
  have f1: "p_sent p1 = p_sent p" "p_ws p1 = p_ws p" "subscriptionsRef p1 = subscriptionsRef p"
    by (simp_all add: p1_def)
  from Cons.IH [OF m1 s2] show ?case
    by (simp add: e c1 f1)
qed

lemma fold_set_add_distinct:
  "distinct (xs @ cbs) \<Longrightarrow> fold set_add cbs xs = xs @ cbs"
  by (induction cbs arbitrary: xs) (auto simp: set_add_def)

lemma subscribe_all_fresh:
  assumes "map_of (subscriptionsRef p) r = None" and "cbs \<noteq> []" and "distinct cbs"
    and "subscribe_all r cbs p = (p', hs)"
  shows "hs = map (Handle r (p_next p)) cbs
       \<and> p_sent p' = (if p_ws p = Some OPEN then p_sent p @ [TypeMsg ''subscribe'' (Some r)] else p_sent p)
       \<and> p_ws p' = p_ws p
       \<and> map_of (subscriptionsRef p') r = Some (p_next p)
       \<and> callbacks_at p' (p_next p) = cbs"
proof -
  obtain cb rest where cbs: "cbs = cb # rest" using assms(2) by (cases cbs) auto
  define a where "a = p_next p"
  define p0 where "p0 = p_send (TypeMsg ''subscribe'' (Some r))
                       (p\<lparr>subscriptionsRef := AList.update r a (subscriptionsRef p),
                          p_store := AList.update a [] (p_store p),
                          p_next := Suc a\<rparr>)"
  define p1 where "p1 = p0\<lparr>p_store := AList.update a (set_add cb (callbacks_at p0 a)) (p_store p0)\<rparr>"
  have m0: "map_of (subscriptionsRef p0) r = Some a"
    by (simp add: p0_def update_conv')
  have c0: "callbacks_at p0 a = []"
    by (simp add: p0_def callbacks_at_def update_conv')
  have s1: "p_subscribe r cb p = (p1, Handle r a cb)"
    using assms(1) unfolding p_subscribe_def Let_def p1_def p0_def a_def by (simp add: update_conv')
  obtain p2 hs2 where s2: "subscribe_all r rest p1 = (p2, hs2)" by (cases "subscribe_all r rest p1")
  have m1: "map_of (subscriptionsRef p1) r = Some a"
    using m0 by (simp add: p1_def)
  have c1: "callbacks_at p1 a = [cb]"
    by (simp add: p1_def callbacks_at_def update_conv' c0 [unfolded callbacks_at_def] set_add_def)
  from assms(4) have e: "p' = p2" "hs = Handle r a cb # hs2"
    by (simp_all add: cbs s1 s2)
  have sent1: "p_sent p1 = (if p_ws p = Some OPEN then p_sent p @ [TypeMsg ''subscribe'' (Some r)] else p_sent p)"
    by (simp add: p1_def p0_def p_send_sent)
  have ws1: "p_ws p1 = p_ws p" by (simp add: p1_def p0_def)
  have "fold set_add rest [cb] = [cb] @ rest"
    using assms(3) by (intro fold_set_add_distinct) (simp add: cbs)
  with subscribe_all_present [OF m1 s2] show ?thesis
    by (simp add: e c1 sent1 ws1 cbs m1 a_def [symmetric])
qed

text \<open>Releasing while a callback that is not released stays in the Set: nothing is sent.\<close>

lemma release_some_remain:
  assumes "\<exists>x \<in> set (callbacks_at p a). x \<notin> set rs"
  shows "p_sent (release_all (map (Handle r a) rs) p) = p_sent p
       \<and> p_ws (release_all (map (Handle r a) rs) p) = p_ws p
       \<and> subscriptionsRef (release_all (map (Handle r a) rs) p) = subscriptionsRef p
       \<and> callbacks_at (release_all (map (Handle r a) rs) p) a =
           filter (\<lambda>x. x \<notin> set rs) (callbacks_at p a)"
  using assms
proof (induction rs arbitrary: p)
  case Nil
  then show ?case by (simp add: release_all_def)
next
  case (Cons c rs)
  define p1 where "p1 = p\<lparr>p_store := AList.update a (set_delete c (callbacks_at p a)) (p_store p)\<rparr>"
  from Cons.prems obtain x where x: "x \<in> set (callbacks_at p a)" "x \<noteq> c" "x \<notin> set rs" by auto
  then have ne: "set_delete c (callbacks_at p a) \<noteq> []"
    by (auto simp: set_delete_def removeAll_Nil_iff)
  have rel: "p_release (Handle r a c) p = p1"
    using ne by (simp add: p1_def Let_def)
  have c1: "callbacks_at p1 a = removeAll c (callbacks_at p a)"
    by (simp add: p1_def callbacks_at_def update_conv' set_delete_def)
  have "\<exists>x \<in> set (callbacks_at p1 a). x \<notin> set rs"
    using x by (auto simp: c1)
  moreover have f1: "p_sent p1 = p_sent p" "p_ws p1 = p_ws p" "subscriptionsRef p1 = subscriptionsRef p"
    by (simp_all add: p1_def)
  moreover have "release_all (map (Handle r a) (c # rs)) p = release_all (map (Handle r a) rs) p1"
    unfolding release_all_def by (simp del: p_release.simps add: rel)
  moreover have "filter (\<lambda>x. x \<notin> set rs) (removeAll c (callbacks_at p a)) =
                 filter (\<lambda>x. x \<notin> set (c # rs)) (callbacks_at p a)"
    by (auto simp: removeAll_filter_not_eq intro: filter_cong)
  ultimately show ?case
    using Cons.IH [of p1] by (simp add: c1)
qed

lemma release_last:
  assumes "set (callbacks_at p a) \<subseteq> {c}"
  shows "p_sent (p_release (Handle r a c) p) =
           (if p_ws p = Some OPEN then p_sent p @ [TypeMsg ''unsubscribe'' (Some r)] else p_sent p)
       \<and> map_of (subscriptionsRef (p_release (Handle r a c) p)) r = None"
proof -
  from assms have "set_delete c (callbacks_at p a) = []"
    by (simp add: set_delete_def removeAll_Nil_iff)
  then show ?thesis by (simp add: Let_def p_send_sent delete_conv')
qed

lemma release_all_snoc:
  "release_all (hs @ [h]) p = p_release h (release_all hs p)"
  by (simp add: release_all_def del: p_release.simps)

lemma subscribe_release_char:
  assumes fresh: "map_of (subscriptionsRef p) r = None"
    and ne: "cbs \<noteq> []" and dist: "distinct cbs"
    and sub: "subscribe_all r cbs p = (p', hs)"
    and dist': "distinct hs'" and same: "set hs' = set hs"
  shows "p_sent p' = (if p_ws p = Some OPEN then p_sent p @ [TypeMsg ''subscribe'' (Some r)] else p_sent p)
       \<and> p_sent (release_all (butlast hs') p') = p_sent p'
       \<and> p_sent (release_all hs' p') =
           (if p_ws p = Some OPEN
            then p_sent p @ [TypeMsg ''subscribe'' (Some r), TypeMsg ''unsubscribe'' (Some r)]
            else p_sent p)
       \<and> map_of (subscriptionsRef (release_all hs' p')) r = None"
proof -
  define a where "a = p_next p"
  note F = subscribe_all_fresh [OF fresh ne dist sub, folded a_def]
  from F have hs: "hs = map (Handle r a) cbs" and sent': "p_sent p' = (if p_ws p = Some OPEN then p_sent p @ [TypeMsg ''subscribe'' (Some r)] else p_sent p)"
    and ws': "p_ws p' = p_ws p" and cbs': "callbacks_at p' a = cbs"
    by simp_all
  define rs where "rs = map handle_callback hs'"
  have each: "h \<in> set hs' \<Longrightarrow> h = Handle r a (handle_callback h)" for h
    using same by (auto simp: hs)
  then have hs': "hs' = map (Handle r a) rs"
    by (simp add: rs_def map_idI [symmetric] comp_def cong: map_cong)
  have srs: "set rs = set cbs"
  proof -
    have "set rs = handle_callback ` set hs" by (simp add: rs_def same)
    also have "\<dots> = set cbs" by (force simp: hs)
    finally show ?thesis .
  qed
  have drs: "distinct rs"
    using dist' by (simp add: hs' distinct_map)
  from srs ne have rne: "rs \<noteq> []" by auto
  then have split: "rs = butlast rs @ [last rs]" by simp
  have bl: "butlast hs' = map (Handle r a) (butlast rs)"
    by (simp add: hs' map_butlast)
  have last_in: "last rs \<in> set (callbacks_at p' a)"
    using rne srs last_in_set [of rs] by (simp add: cbs')
  have last_notin: "last rs \<notin> set (butlast rs)"
    using drs split by (metis distinct_append disjoint_iff list.set_intros(1))
  define q where "q = release_all (butlast hs') p'"
  from release_some_remain [of p' a "butlast rs" r] last_in last_notin
  have R: "p_sent q = p_sent p'" "p_ws q = p_ws p'"
     "callbacks_at q a = filter (\<lambda>x. x \<notin> set (butlast rs)) (callbacks_at p' a)"
    unfolding q_def bl by blast+
  have "set (callbacks_at q a) \<subseteq> {last rs}"
  proof
    fix x assume "x \<in> set (callbacks_at q a)"
    then have "x \<in> set rs" "x \<notin> set (butlast rs)" by (simp_all add: R(3) cbs' srs)
    with split show "x \<in> {last rs}" by (metis Un_iff insert_iff list.simps(15) set_append singletonI empty_set)
  qed
  note L = release_last [OF this, of r]
  have "map (Handle r a) rs = map (Handle r a) (butlast rs @ [last rs])"
    using split by simp
  then have "hs' = butlast hs' @ [Handle r a (last rs)]"
    unfolding bl hs' by simp
  then have fin: "release_all hs' p' = p_release (Handle r a (last rs)) q"
    unfolding q_def by (metis release_all_snoc)
  show ?thesis
    using L R(1,2) by (simp add: sent' ws' fin q_def [symmetric] del: p_release.simps)
qed

lemmas provider_defs = provider_init_def p_subscribe_def p_send_def callbacks_at_def set_add_def
  set_delete_def release_all_def Let_def

lemma demo_subscribe_all:
  "subscribe_all ''r'' demo_callbacks (provider_init (Some OPEN)) =
     (demo_provider, map (Handle ''r'' 0) demo_callbacks)"
proof -
  define P where "P cbs = \<lparr>p_ws = Some OPEN, subscriptionsRef = [(''r'', 0::nat)],
      p_store = [(0::nat, cbs)], p_next = 1,
      p_sent = [TypeMsg ''subscribe'' (Some ''r'')], p_log = []\<rparr>" for cbs :: "callback list"
  have s1: "p_subscribe ''r'' (Callback 7 Returns) (provider_init (Some OPEN)) =
              (P [Callback 7 Returns], Handle ''r'' 0 (Callback 7 Returns))"
    by (simp add: provider_defs P_def)
  have m: "map_of (subscriptionsRef (P cbs)) ''r'' = Some 0" for cbs
    by (simp add: P_def)
  have s2: "p_subscribe ''r'' (Callback 8 Returns) (P [Callback 7 Returns]) =
              (P [Callback 7 Returns, Callback 8 Returns], Handle ''r'' 0 (Callback 8 Returns))"
    unfolding p_subscribe_present [OF m] by (simp add: P_def callbacks_at_def set_add_def)
  have s3: "p_subscribe ''r'' (Callback 9 Returns) (P [Callback 7 Returns, Callback 8 Returns]) =
              (P [Callback 7 Returns, Callback 8 Returns, Callback 9 Returns], Handle ''r'' 0 (Callback 9 Returns))"
    unfolding p_subscribe_present [OF m] by (simp add: P_def callbacks_at_def set_add_def)
  show ?thesis
    by (simp add: demo_callbacks_def s1 s2 s3) (simp add: P_def demo_provider_def)
qed

text \<open>
  Claim C4 as stated fails: with a socket that is not OPEN (here \<^verbatim>\<open>client.ws\<close> is
  \<^verbatim>\<open>undefined\<close>), one registration and its release write no message at all.
\<close>
theorem provider_subscribe_while_not_open_counterexample:
  "p_sent (fst (subscribe_all ''r'' [Callback 1 Returns] (provider_init None))) = []
   \<and> p_sent (release_all (snd (subscribe_all ''r'' [Callback 1 Returns] (provider_init None)))
              (fst (subscribe_all ''r'' [Callback 1 Returns] (provider_init None)))) = []"
  by (simp add: provider_defs)

lemma run_listeners_char:
  "run_listeners ls u v = (map (\<lambda>l. Invoked (cb_id l) u v) (called ls), throws ls)"
proof (induction ls)
  case Nil
  then show ?case by (simp add: throws_def)
next
  case (Cons l ls)
  then show ?case
    by (cases "cb_outcome l") (simp_all add: throws_def)
qed

lemma run_callbacks_char:
  "run_callbacks cbs v = (map (\<lambda>cb. Called (cb_id cb) v) (called cbs), throws cbs)"
proof (induction cbs)
  case Nil
  then show ?case by (simp add: throws_def)
next
  case (Cons cb cbs)
  then show ?case
    by (cases "cb_outcome cb") (simp_all add: throws_def)
qed

lemma called_all: "\<not> throws ls \<Longrightarrow> called ls = ls"
  by (induction ls) (auto simp: throws_def)

lemma called_upto:
  "\<not> throws xs \<Longrightarrow> cb_outcome t = Throws \<Longrightarrow> called (xs @ t # ys) = xs @ [t]"
  by (induction xs) (auto simp: throws_def)

lemma client_on_message_char:
  assumes "i_type message = ''metadata_updated''" and "i_metadata message = Some raw"
    and "parse raw = Some md" and "ec_cache c = Some ca"
  shows "cached_value (ec_cache (client_on_message parse now message c)) (i_resourceId message) = Some md
       \<and> ec_log (client_on_message parse now message c) =
           ec_log c
           @ map (\<lambda>l. Invoked (cb_id l) (update_of message (Some md)) (Some md)) (called (ec_listeners c))
           @ (if throws (ec_listeners c)
              then [EmitError (ValidationError ''Invalid update message'')] else [])"
  using assms
  by (simp add: client_on_message_def Let_def run_listeners_char cached_value_def cache_set_def
        update_conv' log_event_def update_of_def)

lemma provider_on_message_char:
  assumes "i_type message = ''metadata_updated''"
    and "map_of (subscriptionsRef p) (i_resourceId message) = Some a"
  shows "p_log (provider_on_message (JsonIn message) p) =
           p_log p
           @ map (\<lambda>cb. Called (cb_id cb) (i_metadata message)) (called (callbacks_at p a))
           @ (if throws (callbacks_at p a) then [ConsoleError] else [])"
  using assms by (simp add: provider_on_message_def run_callbacks_char)

text \<open>
  Claim C5, as the code has it. For a \<^verbatim>\<open>metadata_updated\<close> message whose payload
  validates, \<^verbatim>\<open>EAMPClient\<close> with its cache enabled stores the payload under the resourceId
  before it calls a listener: every listener that is called finds it in the cache. The
  listeners are called in the order of their registration up to the first that throws;
  that exception ends the dispatch, the listeners behind it are not called, and the
  handler emits an \<^verbatim>\<open>error\<close> event. The provider calls the callbacks of the resourceId in
  the same way and logs the exception. When no listener throws, all are called.
\<close>
theorem dispatch_caches_first_and_stops_at_first_throw:
  assumes "i_type message = ''metadata_updated''" and "i_metadata message = Some raw"
    and "parse raw = Some md" and "ec_cache c = Some ca"
    and "map_of (subscriptionsRef p) (i_resourceId message) = Some a"
  shows "cached_value (ec_cache (client_on_message parse now message c)) (i_resourceId message) = Some md
       \<and> ec_log (client_on_message parse now message c) =
           ec_log c
           @ map (\<lambda>l. Invoked (cb_id l) (update_of message (Some md)) (Some md)) (called (ec_listeners c))
           @ (if throws (ec_listeners c)
              then [EmitError (ValidationError ''Invalid update message'')] else [])
       \<and> p_log (provider_on_message (JsonIn message) p) =
           p_log p
           @ map (\<lambda>cb. Called (cb_id cb) (i_metadata message)) (called (callbacks_at p a))
           @ (if throws (callbacks_at p a) then [ConsoleError] else [])
       \<and> (\<not> throws ls \<longrightarrow> called ls = ls)
       \<and> (\<not> throws xs \<and> cb_outcome t = Throws \<longrightarrow> called (xs @ t # ys) = xs @ [t])"
  using client_on_message_char [of message raw parse md c ca now] assms(1-4)
    provider_on_message_char [OF assms(1,5)]
  by (simp add: called_all called_upto)

theorem dispatch_caches_first_and_stops_at_first_throw_witness:
  "i_type demo_message = ''metadata_updated'' \<and> i_metadata demo_message = Some ''m''
   \<and> Some ''m'' = Some ''m'' \<and> ec_cache demo_client = Some []
   \<and> map_of (subscriptionsRef demo_provider) (i_resourceId demo_message) = Some 0
   \<and> \<not> throws [Callback 7 Returns] \<and> cb_outcome (Callback 8 Throws) = Throws
   \<and> cached_value (ec_cache (client_on_message Some 5 demo_message demo_client)) ''r'' = Some ''m''
   \<and> ec_log (client_on_message Some 5 demo_message demo_client) =
        [Invoked 7 (update_of demo_message (Some ''m'')) (Some ''m''),
         EmitError (ValidationError ''Invalid update message'')]
   \<and> p_log (provider_on_message (JsonIn demo_message) demo_provider) =
        [Called 7 (Some ''m''), Called 8 (Some ''m''), Called 9 (Some ''m'')]
   \<and> called [Callback 7 Returns, Callback 8 Throws, Callback 9 Returns] =
        [Callback 7 Returns, Callback 8 Throws]"
proof -
  have 1: "i_type demo_message = ''metadata_updated''" and 2: "i_metadata demo_message = Some ''m''"
    and r: "i_resourceId demo_message = ''r''"
    by (simp_all add: demo_message_def)
  have 3: "Some ''m'' = Some ''m''" by simp
  have 4: "ec_cache demo_client = Some []"
    and l: "ec_listeners demo_client = [Callback 7 Throws, Callback 8 Returns]"
    and g: "ec_log demo_client = []"
    by (simp_all add: demo_client_def client_init_def)
  have 5: "map_of (subscriptionsRef demo_provider) (i_resourceId demo_message) = Some 0"
    by (simp add: demo_provider_def r)
  have 6: "\<not> throws [Callback 7 Returns]" and 7: "cb_outcome (Callback 8 Throws) = Throws"
    by (simp_all add: throws_def)
  have cb: "callbacks_at demo_provider 0 = [Callback 7 Returns, Callback 8 Returns, Callback 9 Returns]"
    and pl: "p_log demo_provider = []"
    by (simp_all add: demo_provider_def callbacks_at_def)
  note T = dispatch_caches_first_and_stops_at_first_throw
             [of demo_message "''m''" Some "''m''" demo_client "[]" demo_provider 0 5
                 "[]" "[Callback 7 Returns]" "Callback 8 Throws" "[Callback 9 Returns]", OF 1 2 3 4 5]
  from T have a: "cached_value (ec_cache (client_on_message Some 5 demo_message demo_client)) ''r'' = Some ''m''"
    by (simp add: r)
  from T have b: "ec_log (client_on_message Some 5 demo_message demo_client) =
        [Invoked 7 (update_of demo_message (Some ''m'')) (Some ''m''),
         EmitError (ValidationError ''Invalid update message'')]"
    by (simp add: l g throws_def)
  from T have c: "p_log (provider_on_message (JsonIn demo_message) demo_provider) =
        [Called 7 (Some ''m''), Called 8 (Some ''m''), Called 9 (Some ''m'')]"
    by (simp add: cb pl throws_def 2)
  from T 6 7 have d: "called [Callback 7 Returns, Callback 8 Throws, Callback 9 Returns] =
        [Callback 7 Returns, Callback 8 Throws]"
    by simp
  from 1 2 3 4 5 6 7 a b c d show ?thesis by blast
qed

text \<open>
  Claim C5 as stated fails: the first of two listeners throws, and the second, which is
  registered for the same event, is not called; the same happens to the second callback
  of a resourceId in the provider.
\<close>
theorem dispatch_continues_past_throwing_callback_counterexample:
  "ec_listeners demo_client = [Callback 7 Throws, Callback 8 Returns]
   \<and> ec_log (client_on_message Some 5 demo_message demo_client) =
        [Invoked 7 (update_of demo_message (Some ''m'')) (Some ''m''),
         EmitError (ValidationError ''Invalid update message'')]
   \<and> p_log (provider_on_message (JsonIn demo_message)
              (fst (subscribe_all ''r'' [Callback 7 Throws, Callback 8 Returns] (provider_init (Some OPEN))))) =
        [Called 7 (Some ''m''), ConsoleError]"
  by (simp add: demo_client_def client_init_def demo_message_def client_on_message_def
        cached_value_def cache_set_def log_event_def update_of_def provider_on_message_def
        provider_defs)

section \<open>The transport: close, disconnect and reconnect\<close>

lemmas transport_defs = transport_init_def on_open_def on_close_def on_error_def emit_def
  startHeartbeat_def stopHeartbeat_def set_timer_def clear_timer_def reconnect_begin_def
  reconnect_resume_def connect_def isConnected_def disconnect_def heartbeat_tick_def
  ws_send_def pending_reconnects_def send_def Let_def

lemma open_transport_eq:
  "open_transport =
     \<lparr>t_ws = Some OPEN, reconnectAttempts = 0, maxReconnectAttempts = 5, reconnectDelay = 1000,
      isReconnecting = False, messageQueue = [], t_heartbeatInterval = Some 0,
      heartbeatTimeoutId = None, timers = [(0, HeartbeatTick)], next_timer = Suc 0, frames = [],
      emitted = [Connected], send_script = []\<rparr>"
  by (simp add: open_transport_def transport_defs flush_idle)






lemma after_close_eq:
  "after_close =
     \<lparr>t_ws = Some CLOSED, reconnectAttempts = Suc 0, maxReconnectAttempts = 5, reconnectDelay = 1000,
      isReconnecting = True, messageQueue = [], t_heartbeatInterval = None,
      heartbeatTimeoutId = None, timers = [(Suc 0, ReconnectSleep 1000)], next_timer = Suc (Suc 0),
      frames = [], emitted = [Connected, Disconnected], send_script = []\<rparr>"
  by (simp add: after_close_def open_transport_eq transport_defs)

lemma after_fail_eq:
  "after_fail =
     \<lparr>t_ws = Some CLOSED, reconnectAttempts = Suc 0, maxReconnectAttempts = 5, reconnectDelay = 1000,
      isReconnecting = True, messageQueue = [], t_heartbeatInterval = None,
      heartbeatTimeoutId = None, timers = [], next_timer = Suc (Suc 0),
      frames = [],
      emitted = [Connected, Disconnected,
                 ErrorEv (NetworkError ''WebSocket error: connect failed''), Disconnected],
      send_script = []\<rparr>"
  by (simp add: after_fail_def after_close_eq transport_defs)

text \<open>
  Claim C6 on the code. The first abnormal close schedules a retry after 1000 ms and
  counts one attempt. When that attempt fails, the \<^verbatim>\<open>catch\<close> block calls
  \<^verbatim>\<open>reconnect()\<close> with \<^verbatim>\<open>isReconnecting\<close> still set, and the guard of \<^verbatim>\<open>reconnect()\<close>
  returns: no second retry is pending, the counter stays at 1 of 5, no fatal error has
  been emitted, and neither a further abnormal close nor a \<^verbatim>\<open>send\<close> schedules a retry.
\<close>
theorem reconnect_gives_up_silently_after_first_failed_attempt:
  "pending_reconnects after_close = [(1, ReconnectSleep 1000)]
   \<and> reconnectAttempts after_close = 1
   \<and> isReconnecting after_fail
   \<and> reconnectAttempts after_fail = 1 \<and> maxReconnectAttempts after_fail = 5
   \<and> timers after_fail = []
   \<and> emitted after_fail =
        [Connected, Disconnected, ErrorEv (NetworkError ''WebSocket error: connect failed''),
         Disconnected]
   \<and> timers (on_close 1006 after_fail) = []
   \<and> send (ActionMsg ''subscribe'' ''a'') after_fail =
        Inr (after_fail\<lparr>messageQueue := [ActionMsg ''subscribe'' ''a'']\<rparr>)"
  by (simp add: after_close_eq after_fail_eq transport_defs)

lemma client_on_message_keeps:
  "wsTransport (client_on_message parse now message c) = wsTransport c
   \<and> ec_subscriptions (client_on_message parse now message c) = ec_subscriptions c"
proof -
  have k: "wsTransport (log_event e x) = wsTransport x \<and> ec_subscriptions (log_event e x) = ec_subscriptions x"
    for e x by (simp add: log_event_def)
  show ?thesis
  proof (cases "i_type message = ''metadata_updated''")
    case False
    then show ?thesis by (simp add: client_on_message_def)
  next
    case True
    show ?thesis
    proof (cases "i_metadata message")
      case None
      with True show ?thesis
        by (cases "ec_cache c") (simp_all add: client_on_message_def Let_def k split: prod.splits)
    next
      case (Some raw)
      show ?thesis
      proof (cases "parse raw")
        case None
        with True Some show ?thesis by (simp add: client_on_message_def k)
      next
        case (Some md)
        with True \<open>i_metadata message = Some raw\<close> show ?thesis
          by (cases "ec_cache c") (simp_all add: client_on_message_def Let_def k split: prod.splits)
      qed
    qed
  qed
qed

lemma client_on_event_keeps:
  "wsTransport (client_on_event parse now ev c) = wsTransport c
   \<and> ec_subscriptions (client_on_event parse now ev c) = ec_subscriptions c"
  by (cases ev) (simp_all add: client_on_event_def log_event_def client_on_message_keeps)

lemma fold_client_on_event_keeps:
  "wsTransport (fold (client_on_event parse now) evs c) = wsTransport c
   \<and> ec_subscriptions (fold (client_on_event parse now) evs c) = ec_subscriptions c"
  by (induction evs arbitrary: c) (simp_all add: client_on_event_keeps)

lemma store_transport_keeps:
  "wsTransport (store_transport parse now t t' c) = Some t'
   \<and> ec_subscriptions (store_transport parse now t t' c) = ec_subscriptions c"
  by (simp add: store_transport_def fold_client_on_event_keeps)

lemma reconnect_resume_opens:
  assumes "\<not> isConnected t"
  shows "reconnect_resume i Opens t = on_open ((clear_timer i t)\<lparr>t_ws := Some OPEN\<rparr>)"
  using assms by (simp add: reconnect_resume_def connect_def isConnected_def clear_timer_def Let_def)

lemma reopen_char:
  assumes "wsTransport c = Some t" and "\<not> isConnected t"
  shows "frames_of (lift_transport parse now (reconnect_resume i Opens) c) =
           frames t @ map Data (take (flushed (send_script t) (messageQueue t)) (messageQueue t))
       \<and> ec_subscriptions (lift_transport parse now (reconnect_resume i Opens) c) = ec_subscriptions c"
proof -
  define t0 where "t0 = (clear_timer i t)\<lparr>t_ws := Some OPEN\<rparr>"
  have o: "t_ws t0 = Some OPEN" and f: "frames t0 = frames t" "send_script t0 = send_script t"
     "messageQueue t0 = messageQueue t"
    by (simp_all add: t0_def clear_timer_def)
  have r: "reconnect_resume i Opens t = on_open t0"
    unfolding t0_def using assms(2) by (rule reconnect_resume_opens)
  from on_open_char [OF o] show ?thesis
    using assms(1) by (simp add: lift_transport_def frames_of_def store_transport_keeps r f)
qed

text \<open>
  Claim C1, as the code has it. When the transport of a client re-enters OPEN after an
  abnormal close, what is written to the new connection is the pending queue of the
  transport, in its order and up to the first send that throws. The set of subscribed
  resourceIds is not read and is not changed: the client re-sends no \<^verbatim>\<open>subscribe\<close>
  message for them.
\<close>
theorem reconnect_flushes_queue_and_does_not_resubscribe:
  assumes "wsTransport c = Some t" and "\<not> isConnected t"
  shows "frames_of (lift_transport parse now (reconnect_resume i Opens) c) =
           frames t @ map Data (take (flushed (send_script t) (messageQueue t)) (messageQueue t))
       \<and> ec_subscriptions (lift_transport parse now (reconnect_resume i Opens) c) = ec_subscriptions c
       \<and> (messageQueue t = [] \<longrightarrow>
            frames_of (lift_transport parse now (reconnect_resume i Opens) c) = frames_of c)"
  using reopen_char [OF assms] assms(1) by (simp add: frames_of_def)

lemma connect_init: "connect Opens transport_init = Inr open_transport"
  by (simp add: connect_def isConnected_def open_transport_def transport_init_def)

lemma connect_open: "connect outcome (open_transport\<lparr>frames := fr\<rparr>) = Inr (open_transport\<lparr>frames := fr\<rparr>)"
  by (simp add: connect_def isConnected_def open_transport_eq)

lemma send_open:
  "send m (open_transport\<lparr>frames := fr\<rparr>) = Inr (open_transport\<lparr>frames := fr @ [Data m]\<rparr>)"
  by (simp add: send_def isConnected_def ws_send_def open_transport_eq)

lemma store_same_events:
  "emitted t' = emitted t \<Longrightarrow> store_transport parse now t t' c = c\<lparr>wsTransport := Some t'\<rparr>"
  by (simp add: store_transport_def)

lemma first_subscribe:
  "ec_subscribe Some now Opens ''a'' (client_init (Some ''http://h'') True) =
     (subscribed_client [''a''] [Data (ActionMsg ''subscribe'' ''a'')], None)"
proof -
  have o: "open_transport\<lparr>frames := []\<rparr> = open_transport"
    by (simp add: open_transport_eq)
  have st: "store_transport Some now transport_init open_transport c =
              (c\<lparr>wsTransport := Some open_transport\<rparr>)\<lparr>ec_log := ec_log c @ [EmitConnected]\<rparr>" for c
    by (simp add: store_transport_def transport_init_def open_transport_eq client_on_event_def log_event_def)
  show ?thesis
    unfolding ec_subscribe_def
    by (simp add: client_init_def connect_init Let_def st send_open [of _ "[]", unfolded o]
          store_same_events subscribed_client_def set_add_def)
qed

lemma next_subscribe:
  assumes "r \<noteq> []" and "r \<notin> set subs"
  shows "ec_subscribe Some now outcome r (subscribed_client subs fr) =
           (subscribed_client (subs @ [r]) (fr @ [Data (ActionMsg ''subscribe'' r)]), None)"
  using assms unfolding ec_subscribe_def
  by (simp add: subscribed_client_def connect_open send_open store_same_events Let_def set_add_def)

lemma subscribed3_eq:
  "subscribed3 = subscribed_client [''a'', ''b'', ''c'']
     [Data (ActionMsg ''subscribe'' ''a''), Data (ActionMsg ''subscribe'' ''b''),
      Data (ActionMsg ''subscribe'' ''c'')]"
  by (simp add: subscribed3_def first_subscribe next_subscribe)

lemma dropped3_parts:
  "ec_subscriptions dropped3 = [''a'', ''b'', ''c'']"
  "frames_of dropped3 =
     [Data (ActionMsg ''subscribe'' ''a''), Data (ActionMsg ''subscribe'' ''b''),
      Data (ActionMsg ''subscribe'' ''c'')]"
  "\<exists>t. wsTransport dropped3 = Some t \<and> \<not> isConnected t \<and> messageQueue t = []
       \<and> pending_reconnects t = [(1, ReconnectSleep 1000)]"
  by (simp_all add: dropped3_def subscribed3_eq subscribed_client_def lift_transport_def
        store_transport_keeps frames_of_def open_transport_eq transport_defs)

text \<open>
  Claim C1 as stated fails: three resourceIds are subscribed when the connection drops
  with code 1006, and after the reconnection no message at all has been written to the
  new connection.
\<close>
theorem no_resubscribe_after_reconnect_counterexample:
  "ec_subscriptions dropped3 = [''a'', ''b'', ''c'']
   \<and> ec_subscriptions reconnected3 = [''a'', ''b'', ''c'']
   \<and> drop (length (frames_of dropped3)) (frames_of reconnected3) = []"
proof -
  from dropped3_parts(3) obtain t where t: "wsTransport dropped3 = Some t" "\<not> isConnected t"
    "messageQueue t = []" by blast
  from reopen_char [OF t(1,2), of Some 5 1] t(1,3) dropped3_parts(1)
  show ?thesis by (simp add: reconnected3_def frames_of_def)
qed

theorem reconnect_flushes_queue_and_does_not_resubscribe_witness:
  "\<not> isConnected after_close
   \<and> wsTransport ((subscribed_client [''a''] [])\<lparr>wsTransport := Some after_close\<rparr>) = Some after_close
   \<and> messageQueue after_close = []
   \<and> ec_subscriptions (lift_transport Some 5 (reconnect_resume 1 Opens)
        ((subscribed_client [''a''] [])\<lparr>wsTransport := Some after_close\<rparr>)) = [''a'']
   \<and> frames_of (lift_transport Some 5 (reconnect_resume 1 Opens)
        ((subscribed_client [''a''] [])\<lparr>wsTransport := Some after_close\<rparr>)) = []"
proof -
  have 1: "wsTransport ((subscribed_client [''a''] [])\<lparr>wsTransport := Some after_close\<rparr>) = Some after_close"
    by simp
  have 2: "\<not> isConnected after_close" and 3: "messageQueue after_close = []"
    by (simp_all add: after_close_eq isConnected_def)
  note T = reconnect_flushes_queue_and_does_not_resubscribe [OF 1 2, of Some 5 1]
  from T have a: "ec_subscriptions (lift_transport Some 5 (reconnect_resume 1 Opens)
        ((subscribed_client [''a''] [])\<lparr>wsTransport := Some after_close\<rparr>)) = [''a'']"
    by (simp add: subscribed_client_def)
  from T 3 have b: "frames_of (lift_transport Some 5 (reconnect_resume 1 Opens)
        ((subscribed_client [''a''] [])\<lparr>wsTransport := Some after_close\<rparr>)) = []"
    by (simp add: frames_of_def after_close_eq)
  from 1 2 3 a b show ?thesis by blast
qed

section \<open>The transport: what follows a disconnect\<close>










section \<open>One subscribe and one unsubscribe message\<close>

lemma funpow_fixed: "f x = x \<Longrightarrow> (f ^^ n) x = x"
  by (induction n) simp_all

lemma funpow_settles: "f x = y \<Longrightarrow> f y = y \<Longrightarrow> (f ^^ Suc m) x = y"
  by (simp only: funpow_Suc_right o_apply funpow_fixed)

lemma ec_subscribe_first:
  assumes "wsTransport c = Some t" and "isConnected t" and "send_script t = []"
    and "r \<noteq> []" and "r \<notin> set (ec_subscriptions c)"
  shows "ec_subscribe parse now outcome r c =
           (c\<lparr>wsTransport := Some (t\<lparr>frames := frames t @ [Data (ActionMsg ''subscribe'' r)]\<rparr>),
              ec_subscriptions := ec_subscriptions c @ [r]\<rparr>, None)"
proof -
  have c: "connect outcome t = Inr t"
    using assms(2) by (simp add: connect_def)
  have s: "send (ActionMsg ''subscribe'' r) t = Inr (t\<lparr>frames := frames t @ [Data (ActionMsg ''subscribe'' r)]\<rparr>)"
    using assms(2,3) by (simp add: send_def ws_send_def)
  have e: "c\<lparr>wsTransport := Some t\<rparr> = c"
    using assms(1) by simp
  show ?thesis
    unfolding ec_subscribe_def using assms(1,4,5)
    by (simp add: c s store_same_events e Let_def set_add_def)
qed

lemma ec_subscribe_again:
  "r \<in> set (ec_subscriptions c) \<Longrightarrow> r \<noteq> [] \<Longrightarrow> ec_subscribe parse now outcome r c = (c, None)"
  by (simp add: ec_subscribe_def)

lemma ec_unsubscribe_first:
  assumes "wsTransport c = Some t" and "isConnected t" and "send_script t = []"
    and "r \<noteq> []" and "r \<in> set (ec_subscriptions c)"
  shows "ec_unsubscribe parse now r c =
           (c\<lparr>wsTransport := Some (t\<lparr>frames := frames t @ [Data (ActionMsg ''unsubscribe'' r)]\<rparr>),
              ec_subscriptions := removeAll r (ec_subscriptions c)\<rparr>, None)"
proof -
  have s: "send (ActionMsg ''unsubscribe'' r) t = Inr (t\<lparr>frames := frames t @ [Data (ActionMsg ''unsubscribe'' r)]\<rparr>)"
    using assms(2,3) by (simp add: send_def ws_send_def)
  show ?thesis
    unfolding ec_unsubscribe_def using assms(1,2,4,5)
    by (simp add: s store_same_events set_delete_def)
qed

lemma ec_unsubscribe_offline:
  assumes "wsTransport c = Some t" and "\<not> isConnected t"
    and "r \<noteq> []" and "r \<in> set (ec_subscriptions c)"
  shows "ec_unsubscribe parse now r c =
           (c\<lparr>ec_subscriptions := removeAll r (ec_subscriptions c)\<rparr>, None)"
  unfolding ec_unsubscribe_def using assms by (simp add: set_delete_def)

lemma ec_unsubscribe_again:
  "r \<notin> set (ec_subscriptions c) \<Longrightarrow> ec_unsubscribe parse now r c = (c, None)"
  by (simp add: ec_unsubscribe_def)

lemma client_subscribe_unsubscribe_char:
  assumes "wsTransport c = Some t" and "send_script t = []"
    and "r \<noteq> []" and "r \<notin> set (ec_subscriptions c)" and "0 < n"
  shows "(isConnected t \<longrightarrow>
           frames_of (subscribe_times n parse now outcome r c) =
             frames t @ [Data (ActionMsg ''subscribe'' r)]
         \<and> frames_of (unsubscribe_times n parse now r (subscribe_times n parse now outcome r c)) =
             frames t @ [Data (ActionMsg ''subscribe'' r), Data (ActionMsg ''unsubscribe'' r)])
       \<and> (r \<in> set (ec_subscriptions c') \<and> wsTransport c' = Some t' \<and> \<not> isConnected t' \<longrightarrow>
           frames_of (unsubscribe_times n parse now r c') = frames t'
         \<and> queue_of (unsubscribe_times n parse now r c') = messageQueue t'
         \<and> r \<notin> set (ec_subscriptions (unsubscribe_times n parse now r c')))"
proof (rule conjI)
  obtain m where n: "n = Suc m" using assms(5) by (cases n) auto
  show "isConnected t \<longrightarrow>
           frames_of (subscribe_times n parse now outcome r c) =
             frames t @ [Data (ActionMsg ''subscribe'' r)]
         \<and> frames_of (unsubscribe_times n parse now r (subscribe_times n parse now outcome r c)) =
             frames t @ [Data (ActionMsg ''subscribe'' r), Data (ActionMsg ''unsubscribe'' r)]"
  proof
    assume conn: "isConnected t"
    define t1 where "t1 = t\<lparr>frames := frames t @ [Data (ActionMsg ''subscribe'' r)]\<rparr>"
    define c1 where "c1 = c\<lparr>wsTransport := Some t1, ec_subscriptions := ec_subscriptions c @ [r]\<rparr>"
    have f1: "fst (ec_subscribe parse now outcome r c) = c1"
      using ec_subscribe_first [OF assms(1) conn assms(2,3,4)] by (simp add: c1_def t1_def)
    have "fst (ec_subscribe parse now outcome r c1) = c1"
      using assms(3) by (simp add: ec_subscribe_again c1_def)
    with f1 have sub: "subscribe_times n parse now outcome r c = c1"
      unfolding subscribe_times_def n by (rule funpow_settles)
    have t1: "wsTransport c1 = Some t1" "send_script t1 = []" "isConnected t1"
      "r \<in> set (ec_subscriptions c1)"
      using assms(2) conn by (simp_all add: c1_def t1_def isConnected_def)
    define c2 where "c2 = c1\<lparr>wsTransport := Some (t1\<lparr>frames := frames t1 @ [Data (ActionMsg ''unsubscribe'' r)]\<rparr>),
                             ec_subscriptions := removeAll r (ec_subscriptions c1)\<rparr>"
    have f2: "fst (ec_unsubscribe parse now r c1) = c2"
      using ec_unsubscribe_first [OF t1(1,3,2) assms(3) t1(4)] by (simp add: c2_def)
    have "fst (ec_unsubscribe parse now r c2) = c2"
      by (simp add: ec_unsubscribe_again c2_def)
    with f2 have unsub: "unsubscribe_times n parse now r c1 = c2"
      unfolding unsubscribe_times_def n by (rule funpow_settles)
    show "frames_of (subscribe_times n parse now outcome r c) =
             frames t @ [Data (ActionMsg ''subscribe'' r)]
         \<and> frames_of (unsubscribe_times n parse now r (subscribe_times n parse now outcome r c)) =
             frames t @ [Data (ActionMsg ''subscribe'' r), Data (ActionMsg ''unsubscribe'' r)]"
      by (simp add: sub unsub) (simp add: frames_of_def c2_def c1_def t1_def)
  qed
  show "r \<in> set (ec_subscriptions c') \<and> wsTransport c' = Some t' \<and> \<not> isConnected t' \<longrightarrow>
           frames_of (unsubscribe_times n parse now r c') = frames t'
         \<and> queue_of (unsubscribe_times n parse now r c') = messageQueue t'
         \<and> r \<notin> set (ec_subscriptions (unsubscribe_times n parse now r c'))"
  proof
    assume a: "r \<in> set (ec_subscriptions c') \<and> wsTransport c' = Some t' \<and> \<not> isConnected t'"
    define c2 where "c2 = c'\<lparr>ec_subscriptions := removeAll r (ec_subscriptions c')\<rparr>"
    have f2: "fst (ec_unsubscribe parse now r c') = c2"
      using ec_unsubscribe_offline [of c' t' r parse now] a assms(3) by (simp add: c2_def)
    have "fst (ec_unsubscribe parse now r c2) = c2"
      by (simp add: ec_unsubscribe_again c2_def)
    with f2 have unsub: "unsubscribe_times n parse now r c' = c2"
      unfolding unsubscribe_times_def n by (rule funpow_settles)
    show "frames_of (unsubscribe_times n parse now r c') = frames t'
         \<and> queue_of (unsubscribe_times n parse now r c') = messageQueue t'
         \<and> r \<notin> set (ec_subscriptions (unsubscribe_times n parse now r c'))"
      using a by (simp add: unsub c2_def frames_of_def queue_of_def)
  qed
qed

text \<open>
  Claim C4, as the code has it. Both clients write to the socket only while it is OPEN.
  In the provider, let N callbacks, N at least 1 and no two of them the same function,
  be registered for a resourceId that has no entry: one \<^verbatim>\<open>subscribe\<close> message is
  written, by the first registration, when the socket is OPEN, and none when it is not.
  Let then the N functions that \<^verbatim>\<open>subscribe\<close> returned be called once each, in any
  order: nothing is written before the last of them, which writes one \<^verbatim>\<open>unsubscribe\<close>
  message when the socket is OPEN, and after it the resourceId has no entry. In
  \<^verbatim>\<open>EAMPClient\<close>, on an open connection whose sends do not throw, N awaited calls of
  \<^verbatim>\<open>subscribe\<close> for an id that is not subscribed write one \<^verbatim>\<open>subscribe\<close> message and
  the N calls of \<^verbatim>\<open>unsubscribe\<close> that follow write one \<^verbatim>\<open>unsubscribe\<close> message; without
  a connection, \<^verbatim>\<open>unsubscribe\<close> writes and queues nothing.
\<close>
theorem one_subscribe_and_one_unsubscribe_while_open:
  assumes "map_of (subscriptionsRef p) r = None"
    and "cbs \<noteq> []" and "distinct cbs"
    and "subscribe_all r cbs p = (p', hs)"
    and "distinct hs'" and "set hs' = set hs"
    and "wsTransport c = Some t" and "send_script t = []"
    and "r \<noteq> []" and "r \<notin> set (ec_subscriptions c)" and "0 < n"
  shows "p_sent p' = (if p_ws p = Some OPEN then p_sent p @ [TypeMsg ''subscribe'' (Some r)] else p_sent p)
       \<and> p_sent (release_all (butlast hs') p') = p_sent p'
       \<and> p_sent (release_all hs' p') =
           (if p_ws p = Some OPEN
            then p_sent p @ [TypeMsg ''subscribe'' (Some r), TypeMsg ''unsubscribe'' (Some r)]
            else p_sent p)
       \<and> map_of (subscriptionsRef (release_all hs' p')) r = None
       \<and> (isConnected t \<longrightarrow>
             frames_of (subscribe_times n parse now outcome r c) =
               frames t @ [Data (ActionMsg ''subscribe'' r)]
           \<and> frames_of (unsubscribe_times n parse now r (subscribe_times n parse now outcome r c)) =
               frames t @ [Data (ActionMsg ''subscribe'' r), Data (ActionMsg ''unsubscribe'' r)])
       \<and> (r \<in> set (ec_subscriptions c') \<and> wsTransport c' = Some t' \<and> \<not> isConnected t' \<longrightarrow>
             frames_of (unsubscribe_times n parse now r c') = frames t'
           \<and> queue_of (unsubscribe_times n parse now r c') = messageQueue t'
           \<and> r \<notin> set (ec_subscriptions (unsubscribe_times n parse now r c')))"
  using subscribe_release_char [OF assms(1-6)]
    client_subscribe_unsubscribe_char [OF assms(7-11), of parse now outcome c' t']
  by simp

theorem one_subscribe_and_one_unsubscribe_while_open_witness:
  "map_of (subscriptionsRef (provider_init (Some OPEN))) ''r'' = None
   \<and> demo_callbacks \<noteq> [] \<and> distinct demo_callbacks
   \<and> subscribe_all ''r'' demo_callbacks (provider_init (Some OPEN)) =
        (demo_provider, map (Handle ''r'' 0) demo_callbacks)
   \<and> distinct demo_handles \<and> set demo_handles = set (map (Handle ''r'' 0) demo_callbacks)
   \<and> wsTransport (subscribed_client [] []) = Some (open_transport\<lparr>frames := []\<rparr>)
   \<and> send_script (open_transport\<lparr>frames := []\<rparr>) = []
   \<and> ''r'' \<noteq> [] \<and> ''r'' \<notin> set (ec_subscriptions (subscribed_client [] [])) \<and> (0::nat) < 3
   \<and> isConnected (open_transport\<lparr>frames := []\<rparr>)
   \<and> ''r'' \<in> set (ec_subscriptions ((subscribed_client [''r''] [])\<lparr>wsTransport := Some after_close\<rparr>))
   \<and> wsTransport ((subscribed_client [''r''] [])\<lparr>wsTransport := Some after_close\<rparr>) = Some after_close
   \<and> \<not> isConnected after_close
   \<and> p_sent demo_provider = [TypeMsg ''subscribe'' (Some ''r'')]
   \<and> p_sent (release_all (butlast demo_handles) demo_provider) = [TypeMsg ''subscribe'' (Some ''r'')]
   \<and> p_sent (release_all demo_handles demo_provider) =
        [TypeMsg ''subscribe'' (Some ''r''), TypeMsg ''unsubscribe'' (Some ''r'')]
   \<and> frames_of (subscribe_times 3 Some 1 Opens ''r'' (subscribed_client [] [])) =
        [Data (ActionMsg ''subscribe'' ''r'')]
   \<and> frames_of (unsubscribe_times 3 Some 1 ''r''
        (subscribe_times 3 Some 1 Opens ''r'' (subscribed_client [] []))) =
        [Data (ActionMsg ''subscribe'' ''r''), Data (ActionMsg ''unsubscribe'' ''r'')]
   \<and> frames_of (unsubscribe_times 3 Some 1 ''r''
        ((subscribed_client [''r''] [])\<lparr>wsTransport := Some after_close\<rparr>)) = []
   \<and> queue_of (unsubscribe_times 3 Some 1 ''r''
        ((subscribed_client [''r''] [])\<lparr>wsTransport := Some after_close\<rparr>)) = []"
proof -
  have 1: "map_of (subscriptionsRef (provider_init (Some OPEN))) ''r'' = None"
    by (simp add: provider_init_def)
  have 2: "demo_callbacks \<noteq> []" and 3: "distinct demo_callbacks"
    by (simp_all add: demo_callbacks_def)
  have 5: "distinct demo_handles" and 6: "set demo_handles = set (map (Handle ''r'' 0) demo_callbacks)"
    by (auto simp: demo_handles_def demo_callbacks_def)
  have 7: "wsTransport (subscribed_client [] []) = Some (open_transport\<lparr>frames := []\<rparr>)"
    and 10: "''r'' \<notin> set (ec_subscriptions (subscribed_client [] []))"
    by (simp_all add: subscribed_client_def)
  have 8: "send_script (open_transport\<lparr>frames := []\<rparr>) = []"
    and 12: "isConnected (open_transport\<lparr>frames := []\<rparr>)"
    and fr: "frames (open_transport\<lparr>frames := []\<rparr>) = []"
    by (simp_all add: open_transport_eq isConnected_def)
  have 9: "''r'' \<noteq> []" and 11: "(0::nat) < 3" by simp_all
  have 13: "''r'' \<in> set (ec_subscriptions ((subscribed_client [''r''] [])\<lparr>wsTransport := Some after_close\<rparr>))"
    and 14: "wsTransport ((subscribed_client [''r''] [])\<lparr>wsTransport := Some after_close\<rparr>) = Some after_close"
    by (simp_all add: subscribed_client_def)
  have 15: "\<not> isConnected after_close" and fq: "frames after_close = []" "messageQueue after_close = []"
    by (simp_all add: after_close_eq isConnected_def)
  note T = one_subscribe_and_one_unsubscribe_while_open
             [OF 1 2 3 demo_subscribe_all 5 6 7 8 9 10 11,
              of Some 1 Opens "(subscribed_client [''r''] [])\<lparr>wsTransport := Some after_close\<rparr>" after_close]
  have o: "p_ws (provider_init (Some OPEN)) = Some OPEN" "p_sent (provider_init (Some OPEN)) = []"
    by (simp_all add: provider_init_def)
  from T have a: "p_sent demo_provider = [TypeMsg ''subscribe'' (Some ''r'')]"
    and b: "p_sent (release_all (butlast demo_handles) demo_provider) = [TypeMsg ''subscribe'' (Some ''r'')]"
    and c: "p_sent (release_all demo_handles demo_provider) =
        [TypeMsg ''subscribe'' (Some ''r''), TypeMsg ''unsubscribe'' (Some ''r'')]"
    by (simp_all add: o)
  from T 12 have d: "frames_of (subscribe_times 3 Some 1 Opens ''r'' (subscribed_client [] [])) =
        [Data (ActionMsg ''subscribe'' ''r'')]"
    and e: "frames_of (unsubscribe_times 3 Some 1 ''r''
        (subscribe_times 3 Some 1 Opens ''r'' (subscribed_client [] []))) =
        [Data (ActionMsg ''subscribe'' ''r''), Data (ActionMsg ''unsubscribe'' ''r'')]"
    by (simp_all add: fr)
  from T 13 14 15 have f: "frames_of (unsubscribe_times 3 Some 1 ''r''
        ((subscribed_client [''r''] [])\<lparr>wsTransport := Some after_close\<rparr>)) = []"
    and g: "queue_of (unsubscribe_times 3 Some 1 ''r''
        ((subscribed_client [''r''] [])\<lparr>wsTransport := Some after_close\<rparr>)) = []"
    by (simp_all add: fq)
  from 1 2 3 demo_subscribe_all 5 6 7 8 9 10 11 12 13 14 15 a b c d e f g show ?thesis by blast
qed

end

